theory Spec2Isabelle
  imports Complex_Main
begin

section \<open>Values of the host language\<close>

text \<open>
  The server reads its events from \<^verbatim>\<open>JSON.parse\<close>, so an event is any JSON value.
  Numbers are idealised: a JSON number is an integer (seconds since the epoch; of a
  magnitude that a double holds exactly and prints in decimal), and the arithmetic on
  scores is the arithmetic of the reals extended by \<open>NaN\<close>. Of the effects of IEEE
  doubles only the underflow of \<^verbatim>\<open>Math.pow\<close> to zero is modelled; rounding to 53 bits
  and overflow are not, and no theorem below states more of a score than holds of the
  doubles. Strings are strings of ASCII characters.
  \<open>None\<close> in \<open>jsval\<close> is \<^verbatim>\<open>undefined\<close>, the value of a property that is not there.
\<close>

datatype json =
    JNull
  | JBool bool
  | JNum int
  | JStr string
  | JArr "json list"
  | JObj "(string \<times> json) list"

type_synonym jsval = "json option"

datatype jsnum = NaN | Num real

datatype error = TypeError | RangeError | SyntaxError

fun truthy :: "jsval \<Rightarrow> bool" where
  "truthy None = False"
| "truthy (Some JNull) = False"
| "truthy (Some (JBool b)) = b"
| "truthy (Some (JNum n)) = (n \<noteq> 0)"
| "truthy (Some (JStr s)) = (s \<noteq> [])"
| "truthy (Some (JArr xs)) = True"
| "truthy (Some (JObj kvs)) = True"

fun nullish :: "jsval \<Rightarrow> bool" where
  "nullish None = True"
| "nullish (Some JNull) = True"
| "nullish (Some v) = False"

text \<open>
  \<^verbatim>\<open>v.k\<close> for the property names the program reads (\<^verbatim>\<open>events\<close>, \<^verbatim>\<open>productIds\<close>,
  \<^verbatim>\<open>data\<close>, \<^verbatim>\<open>products\<close>, \<^verbatim>\<open>id\<close>, \<^verbatim>\<open>name\<close>, \<^verbatim>\<open>timestamp\<close>): reading from
  \<^verbatim>\<open>null\<close> or \<^verbatim>\<open>undefined\<close> throws, an object yields its own property (the last
  binding of a repeated key, as \<^verbatim>\<open>JSON.parse\<close> keeps it), and numbers, booleans, strings
  and arrays have no property of these names.
\<close>

fun getProp :: "jsval \<Rightarrow> string \<Rightarrow> error + jsval" where
  "getProp None k = Inl TypeError"
| "getProp (Some JNull) k = Inl TypeError"
| "getProp (Some (JObj kvs)) k = Inr (map_of (rev kvs) k)"
| "getProp (Some v) k = Inr None"

text \<open>\<^verbatim>\<open>v?.k\<close>: \<^verbatim>\<open>undefined\<close> when \<open>v\<close> is nullish, the property otherwise.\<close>

definition optGet :: "jsval \<Rightarrow> string \<Rightarrow> jsval" where
  "optGet v k = (if nullish v then None else (case getProp v k of Inl e \<Rightarrow> None | Inr x \<Rightarrow> x))"

subsection \<open>Conversions\<close>

definition digitChar :: "nat \<Rightarrow> char" where
  "digitChar d = char_of (48 + d)"

fun showNat :: "nat \<Rightarrow> string" where
  "showNat n = (if n < 10 then [digitChar n] else showNat (n div 10) @ [digitChar (n mod 10)])"

declare showNat.simps [simp del]

definition showInt :: "int \<Rightarrow> string" where
  "showInt i = (if i < 0 then CHR ''-'' # showNat (nat (- i)) else showNat (nat i))"

fun joinComma :: "string list \<Rightarrow> string" where
  "joinComma [] = []"
| "joinComma [s] = s"
| "joinComma (s # t # ss) = s @ '','' @ joinComma (t # ss)"

text \<open>\<^verbatim>\<open>ToString\<close> on a parsed JSON value; an array joins its elements, \<^verbatim>\<open>null\<close> as the
  empty string.\<close>

fun toStringJ :: "json \<Rightarrow> string" where
  "toStringJ JNull = ''null''"
| "toStringJ (JBool b) = (if b then ''true'' else ''false'')"
| "toStringJ (JNum n) = showInt n"
| "toStringJ (JStr s) = s"
| "toStringJ (JArr xs) = joinComma (map (\<lambda>x. if x = JNull then [] else toStringJ x) xs)"
| "toStringJ (JObj kvs) = ''[object Object]''"

text \<open>\<^verbatim>\<open>ToString\<close> on any value the program meets; \<^verbatim>\<open>obj[v]\<close> looks under this string
  (\<^verbatim>\<open>ToPropertyKey\<close>).\<close>

definition toStringV :: "jsval \<Rightarrow> string" where
  "toStringV v = (case v of None \<Rightarrow> ''undefined'' | Some j \<Rightarrow> toStringJ j)"

definition isDigit :: "char \<Rightarrow> bool" where
  "isDigit c = (c \<in> set ''0123456789'')"

definition digitVal :: "char \<Rightarrow> nat" where
  "digitVal c = of_char c - 48"

definition natOfDigits :: "string \<Rightarrow> nat" where
  "natOfDigits s = foldl (\<lambda>acc c. 10 * acc + digitVal c) 0 s"

definition isSpace :: "char \<Rightarrow> bool" where
  "isSpace c = (of_char c \<in> {9, 10, 11, 12, 13, 32 :: nat})"

definition trim :: "string \<Rightarrow> string" where
  "trim s = rev (dropWhile isSpace (rev (dropWhile isSpace s)))"

text \<open>
  \<^verbatim>\<open>StringToNumber\<close>, on the literals the idealised numbers can hold: white space, or an
  optionally signed run of decimal digits. Every other string is read as \<open>NaN\<close>
  (fractions, exponents, radix prefixes and \<^verbatim>\<open>Infinity\<close> are outside the model).
\<close>

definition stringToNumber :: "string \<Rightarrow> jsnum" where
  "stringToNumber s =
     (let t = trim s in
      if t = [] then Num 0
      else if hd t = CHR ''-'' \<and> tl t \<noteq> [] \<and> list_all isDigit (tl t) then Num (- real (natOfDigits (tl t)))
      else if hd t = CHR ''+'' \<and> tl t \<noteq> [] \<and> list_all isDigit (tl t) then Num (real (natOfDigits (tl t)))
      else if list_all isDigit t then Num (real (natOfDigits t))
      else NaN)"

fun toNumber :: "jsval \<Rightarrow> jsnum" where
  "toNumber None = NaN"
| "toNumber (Some JNull) = Num 0"
| "toNumber (Some (JBool b)) = Num (if b then 1 else 0)"
| "toNumber (Some (JNum n)) = Num (real_of_int n)"
| "toNumber (Some (JStr s)) = stringToNumber s"
| "toNumber (Some (JArr xs)) = stringToNumber (toStringJ (JArr xs))"
| "toNumber (Some (JObj kvs)) = NaN"

fun addNum :: "jsnum \<Rightarrow> jsnum \<Rightarrow> jsnum" where
  "addNum (Num a) (Num b) = Num (a + b)"
| "addNum a b = NaN"

fun subNum :: "jsnum \<Rightarrow> jsnum \<Rightarrow> jsnum" where
  "subNum (Num a) (Num b) = Num (a - b)"
| "subNum a b = NaN"

fun mulNum :: "jsnum \<Rightarrow> jsnum \<Rightarrow> jsnum" where
  "mulNum (Num a) (Num b) = Num (a * b)"
| "mulNum a b = NaN"

text \<open>Division, used with the non-zero divisor \<open>86400\<close> only.\<close>

fun divNum :: "jsnum \<Rightarrow> real \<Rightarrow> jsnum" where
  "divNum (Num a) d = Num (a / d)"
| "divNum NaN d = NaN"

section \<open>Objects used as dictionaries\<close>

text \<open>
  \<^verbatim>\<open>EVENT_WEIGHTS\<close> and \<^verbatim>\<open>scores\<close> are plain objects, so a lookup that misses the
  object's own properties continues in \<^verbatim>\<open>Object.prototype\<close>, whose property names are
  listed here. All of them hold functions except \<^verbatim>\<open>__proto__\<close>, an accessor whose
  getter returns the prototype object and whose setter ignores every value that is not an
  object.
\<close>

definition objectPrototypeKeys :: "string list" where
  "objectPrototypeKeys =
     [''constructor'', ''__defineGetter__'', ''__defineSetter__'', ''hasOwnProperty'',
      ''__lookupGetter__'', ''__lookupSetter__'', ''isPrototypeOf'', ''propertyIsEnumerable'',
      ''toString'', ''valueOf'', ''__proto__'', ''toLocaleString'']"

definition EVENT_WEIGHTS :: "(string \<times> real) list" where
  "EVENT_WEIGHTS =
     [(''ProductAddToCart'', 10),
      (''ProductDetailsView'', 5),
      (''Purchase'', - 100),
      (''MyCustomEvent'', 15),
      (''MyCustomWishlistEvent'', 20)]"

definition DEFAULT_WEIGHT :: real where
  "DEFAULT_WEIGHT = 1"

definition RECENCY_HALF_LIFE_DAYS :: real where
  "RECENCY_HALF_LIFE_DAYS = 7"

text \<open>The value of \<^verbatim>\<open>EVENT_WEIGHTS[event.name] ?? DEFAULT_WEIGHT\<close>: a number, or an object
  (a function) inherited from the prototype, which is not nullish.\<close>

datatype weightval = WNum real | WObject

definition lookupWeight :: "jsval \<Rightarrow> weightval" where
  "lookupWeight name =
     (let k = toStringV name in
      case map_of EVENT_WEIGHTS k of
        Some w \<Rightarrow> WNum w
      | None \<Rightarrow> if k \<in> set objectPrototypeKeys then WObject else WNum DEFAULT_WEIGHT)"

fun weightToNumber :: "weightval \<Rightarrow> jsnum" where
  "weightToNumber (WNum w) = Num w"
| "weightToNumber WObject = NaN"

text \<open>A value stored in \<^verbatim>\<open>scores\<close>: a number, or the string that \<^verbatim>\<open>+\<close> builds when its
  left operand is an inherited function or object, or already such a string. These strings
  start with \<^verbatim>\<open>function\<close> or \<^verbatim>\<open>[object Object]\<close>, so as numbers they are \<open>NaN\<close>.\<close>

datatype cell = CNum jsnum | CStr

fun cellToNumber :: "cell \<Rightarrow> jsnum" where
  "cellToNumber (CNum n) = n"
| "cellToNumber CStr = NaN"

type_synonym scoresObj = "(string \<times> cell) list"

text \<open>\<^verbatim>\<open>(old || 0) + c\<close> for an own property \<open>old\<close>: \<open>NaN\<close> and \<open>0\<close> are falsy.\<close>

fun plusCell :: "cell \<Rightarrow> jsnum \<Rightarrow> cell" where
  "plusCell CStr c = CStr"
| "plusCell (CNum NaN) c = CNum (addNum (Num 0) c)"
| "plusCell (CNum (Num r)) c = CNum (addNum (Num r) c)"

definition updateOwn :: "string \<Rightarrow> cell \<Rightarrow> scoresObj \<Rightarrow> scoresObj" where
  "updateOwn k v props = map (\<lambda>(k', v'). if k' = k then (k', v) else (k', v')) props"

text \<open>
  \<^verbatim>\<open>scores[id] = (scores[id] || 0) + c\<close>, the own properties kept in creation order.
  A key that is not an own property but a name of the prototype reads a function or an
  object, which is truthy and makes \<^verbatim>\<open>+\<close> a string concatenation; the assignment then
  creates an own property, except for \<^verbatim>\<open>__proto__\<close>, whose setter drops the string.
\<close>

definition addScore :: "jsnum \<Rightarrow> scoresObj \<Rightarrow> string \<Rightarrow> scoresObj" where
  "addScore c props k =
     (case map_of props k of
        Some old \<Rightarrow> updateOwn k (plusCell old c) props
      | None \<Rightarrow>
          if k \<in> set objectPrototypeKeys
          then (if k = ''__proto__'' then props else props @ [(k, CStr)])
          else props @ [(k, CNum (addNum (Num 0) c))])"

text \<open>
  \<^verbatim>\<open>Object.entries\<close>: the keys that are array indices (canonical decimal numerals up to
  \<open>2\<^sup>3\<^sup>2 - 2\<close>) come first, in ascending numeric order; the other keys follow in the
  order of their creation.
\<close>

definition isArrayIndex :: "string \<Rightarrow> bool" where
  "isArrayIndex s =
     (s \<noteq> [] \<and> list_all isDigit s \<and> (s = ''0'' \<or> hd s \<noteq> CHR ''0'') \<and> natOfDigits s \<le> 4294967294)"

definition objectEntries :: "scoresObj \<Rightarrow> (string \<times> cell) list" where
  "objectEntries props =
     sort_key (\<lambda>p. natOfDigits (fst p)) (filter (\<lambda>p. isArrayIndex (fst p)) props)
     @ filter (\<lambda>p. \<not> isArrayIndex (fst p)) props"

section \<open>The scoring engine\<close>

subsection \<open>Identifier extraction\<close>

text \<open>
  The value of \<^verbatim>\<open>ids\<close>: an array (of JSON values, or \<^verbatim>\<open>undefined\<close> where a product
  sub-record has no \<^verbatim>\<open>id\<close>), or the truthy value of \<^verbatim>\<open>event.productIds\<close> when that is
  not an array.
\<close>

datatype idsval = IdArray "jsval list" | IdOther json

fun asIds :: "json \<Rightarrow> idsval" where
  "asIds (JArr xs) = IdArray (map Some xs)"
| "asIds v = IdOther v"

text \<open>\<^verbatim>\<open>products.map(p => p.id)\<close>\<close>

fun mapIds :: "json list \<Rightarrow> error + jsval list" where
  "mapIds [] = Inr []"
| "mapIds (p # ps) =
     (case getProp (Some p) ''id'' of
        Inl e \<Rightarrow> Inl e
      | Inr i \<Rightarrow> (case mapIds ps of Inl e \<Rightarrow> Inl e | Inr is \<Rightarrow> Inr (i # is)))"

text \<open>\<^verbatim>\<open>event.data?.products?.map(p => p.id)\<close>, given \<^verbatim>\<open>event.data\<close>: calling \<^verbatim>\<open>map\<close>
  on a value that is neither nullish nor an array throws.\<close>

definition productsIds :: "jsval \<Rightarrow> error + jsval list option" where
  "productsIds d =
     (let ps = optGet d ''products'' in
      if nullish ps then Inr None
      else (case ps of
              Some (JArr xs) \<Rightarrow> (case mapIds xs of Inl e \<Rightarrow> Inl e | Inr is \<Rightarrow> Inr (Some is))
            | _ \<Rightarrow> Inl TypeError))"

text \<open>The second and third operand of the \<^verbatim>\<open>||\<close> chain; an array is always truthy.\<close>

definition extractFromData :: "json \<Rightarrow> error + idsval" where
  "extractFromData event =
     (case getProp (Some event) ''data'' of
        Inl e \<Rightarrow> Inl e
      | Inr d \<Rightarrow>
          (case productsIds d of
             Inl e \<Rightarrow> Inl e
           | Inr (Some is) \<Rightarrow> Inr (IdArray is)
           | Inr None \<Rightarrow>
               Inr (IdArray (if truthy (optGet d ''id'') then [optGet d ''id''] else []))))"

definition extractIds :: "json \<Rightarrow> error + idsval" where
  "extractIds event =
     (case getProp (Some event) ''productIds'' of
        Inl e \<Rightarrow> Inl e
      | Inr None \<Rightarrow> extractFromData event
      | Inr (Some v) \<Rightarrow> if truthy (Some v) then Inr (asIds v) else extractFromData event)"

text \<open>\<^verbatim>\<open>ids.forEach(...)\<close> exists on arrays only.\<close>

fun forEachIds :: "idsval \<Rightarrow> error + jsval list" where
  "forEachIds (IdArray xs) = Inr xs"
| "forEachIds (IdOther v) = Inl TypeError"

text \<open>\<^verbatim>\<open>for (const id of ids)\<close>: arrays and strings are iterable, a string yields its
  characters.\<close>

fun iterateIds :: "idsval \<Rightarrow> error + jsval list" where
  "iterateIds (IdArray xs) = Inr xs"
| "iterateIds (IdOther (JStr s)) = Inr (map (\<lambda>c. Some (JStr [c])) s)"
| "iterateIds (IdOther v) = Inl TypeError"

subsection \<open>Weight and recency\<close>

definition ageInDays :: "int \<Rightarrow> jsval \<Rightarrow> jsnum" where
  "ageInDays now ts = divNum (subNum (Num (real_of_int now)) (toNumber ts)) 86400"

text \<open>
  \<^verbatim>\<open>Math.pow(0.5, ageInDays / RECENCY_HALF_LIFE_DAYS)\<close> on doubles. The least positive
  double is \<open>2\<^sup>-\<^sup>1\<^sup>0\<^sup>7\<^sup>4\<close>, and \<open>2\<^sup>-\<^sup>1\<^sup>0\<^sup>7\<^sup>5\<close> is rounded to zero: from the exponent \<open>1075\<close>
  on, that is from the age of \<open>7525\<close> days on, the result is exactly \<open>0\<close>. Below that
  exponent the real power stands for the double next to it.
\<close>

definition recencyFactor :: "real \<Rightarrow> real" where
  "recencyFactor age =
     (if 1075 \<le> age / RECENCY_HALF_LIFE_DAYS then 0
      else (1 / 2) powr (age / RECENCY_HALF_LIFE_DAYS))"

fun recency :: "jsnum \<Rightarrow> jsnum" where
  "recency NaN = NaN"
| "recency (Num age) = Num (recencyFactor age)"

text \<open>\<^verbatim>\<open>weight * recency\<close> for an event that is not a purchase.\<close>

definition contribution :: "int \<Rightarrow> jsval \<Rightarrow> jsval \<Rightarrow> jsnum" where
  "contribution now name ts =
     mulNum (weightToNumber (lookupWeight name)) (recency (ageInDays now ts))"

subsection \<open>The loop over the events\<close>

record state =
  scores :: scoresObj
  purchased :: "jsval list"

definition processEvent :: "int \<Rightarrow> state \<Rightarrow> json \<Rightarrow> error + state" where
  "processEvent now st event =
     (case extractIds event of
        Inl e \<Rightarrow> Inl e
      | Inr ids \<Rightarrow>
          (case getProp (Some event) ''name'' of
             Inl e \<Rightarrow> Inl e
           | Inr name \<Rightarrow>
               if name = Some (JStr ''Purchase'')
               then (case forEachIds ids of
                       Inl e \<Rightarrow> Inl e
                     | Inr xs \<Rightarrow> Inr (st\<lparr>purchased := purchased st @ xs\<rparr>))
               else (case getProp (Some event) ''timestamp'' of
                       Inl e \<Rightarrow> Inl e
                     | Inr ts \<Rightarrow>
                         (case iterateIds ids of
                            Inl e \<Rightarrow> Inl e
                          | Inr xs \<Rightarrow>
                              Inr (st\<lparr>scores :=
                                     foldl (addScore (contribution now name ts)) (scores st)
                                       (map toStringV xs)\<rparr>)))))"

fun scoreLoop :: "int \<Rightarrow> state \<Rightarrow> json list \<Rightarrow> error + state" where
  "scoreLoop now st [] = Inr st"
| "scoreLoop now st (event # events) =
     (case processEvent now st event of
        Inl e \<Rightarrow> Inl e
      | Inr st' \<Rightarrow> scoreLoop now st' events)"

subsection \<open>Ranking\<close>

text \<open>\<^verbatim>\<open>purchased.has(id)\<close> for a key of \<^verbatim>\<open>scores\<close>, which is a string: the set compares
  without conversion, so only a string that was added matches.\<close>

definition purchasedHas :: "jsval list \<Rightarrow> string \<Rightarrow> bool" where
  "purchasedHas ps k = (Some (JStr k) \<in> set ps)"

text \<open>The comparator \<^verbatim>\<open>(a, b) => b[1] - a[1]\<close>.\<close>

definition compareScores :: "string \<times> cell \<Rightarrow> string \<times> cell \<Rightarrow> jsnum" where
  "compareScores a b = subNum (cellToNumber (snd b)) (cellToNumber (snd a))"

fun positive :: "jsnum \<Rightarrow> bool" where
  "positive NaN = False"
| "positive (Num r) = (0 < r)"

text \<open>
  \<^verbatim>\<open>Array.prototype.sort\<close> is stable, and with a comparator that orders the elements
  consistently its result is the one of an insertion sort that moves an element past
  those it compares greater than. When a comparison yields \<open>NaN\<close> (read as \<open>0\<close>) the
  language leaves the order to the implementation; this insertion sort is then one of
  the permitted results.
\<close>

fun insortBy :: "('a \<Rightarrow> 'a \<Rightarrow> jsnum) \<Rightarrow> 'a \<Rightarrow> 'a list \<Rightarrow> 'a list" where
  "insortBy cmp x [] = [x]"
| "insortBy cmp x (y # ys) = (if positive (cmp x y) then y # insortBy cmp x ys else x # y # ys)"

definition sortBy :: "('a \<Rightarrow> 'a \<Rightarrow> jsnum) \<Rightarrow> 'a list \<Rightarrow> 'a list" where
  "sortBy cmp xs = foldr (insortBy cmp) xs []"

text \<open>\<^verbatim>\<open>xs.slice(0, stop)\<close> for an integer \<open>stop\<close>: a negative \<open>stop\<close> counts from the
  end of the array.\<close>

definition slice0 :: "int \<Rightarrow> 'a list \<Rightarrow> 'a list" where
  "slice0 stop xs =
     (let len = int (length xs);
          final = (if stop < 0 then max (len + stop) 0 else min stop len)
      in take (nat final) xs)"

text \<open>\<^verbatim>\<open>Object.entries(scores).filter(([id]) => !purchased.has(id))\<close>\<close>

definition nonPurchased :: "state \<Rightarrow> (string \<times> cell) list" where
  "nonPurchased st =
     filter (\<lambda>p. \<not> purchasedHas (purchased st) (fst p)) (objectEntries (scores st))"

definition ranked :: "state \<Rightarrow> int \<Rightarrow> (string \<times> cell) list" where
  "ranked st requestedItems = slice0 requestedItems (sortBy compareScores (nonPurchased st))"

text \<open>The state before the first event: \<^verbatim>\<open>scores = {}\<close>, \<^verbatim>\<open>purchased = new Set()\<close>.\<close>

definition initialState :: state where
  "initialState = \<lparr>scores = [], purchased = []\<rparr>"

definition scoreEvents :: "int \<Rightarrow> json list \<Rightarrow> int \<Rightarrow> error + (string \<times> cell) list" where
  "scoreEvents now events requestedItems =
     (case scoreLoop now initialState events of
        Inl e \<Rightarrow> Inl e
      | Inr st \<Rightarrow> Inr (ranked st requestedItems))"

section \<open>The HTTP handler\<close>

text \<open>
  A request as the handler sees it: the method, the URL, the value of
  \<^verbatim>\<open>url.parse(req.url, true).query.requestedItems\<close> (\<^verbatim>\<open>undefined\<close>, a string, or an
  array of strings when the parameter is repeated) and the result of \<^verbatim>\<open>JSON.parse\<close> on
  the body, \<open>None\<close> when it throws \<^verbatim>\<open>SyntaxError\<close>.
\<close>

record request =
  reqMethod :: string
  reqUrl :: string
  queryRequestedItems :: jsval
  parsedBody :: "json option"

text \<open>A response body: a text written as it is, or \<^verbatim>\<open>JSON.stringify\<close> of an array of
  identifiers.\<close>

datatype body = Text string | JsonIds "string list"

record response =
  status :: nat
  contentType :: "string option"
  content :: body

text \<open>What a request leads to: the response, \<open>None\<close> when the handler throws before it
  answers, and the arguments of the call of \<^verbatim>\<open>scoreEvents\<close>, if it is called.\<close>

record outcome =
  response :: "response option"
  engineCall :: "(json list \<times> int) option"

definition isHexDigit :: "char \<Rightarrow> bool" where
  "isHexDigit c = (c \<in> set ''0123456789abcdefABCDEF'')"

definition hexVal :: "char \<Rightarrow> nat" where
  "hexVal c =
     (if isDigit c then of_char c - 48
      else if c \<in> set ''abcdef'' then of_char c - 87
      else of_char c - 55)"

definition natOfHex :: "string \<Rightarrow> nat" where
  "natOfHex s = foldl (\<lambda>acc c. 16 * acc + hexVal c) 0 s"

text \<open>
  \<^verbatim>\<open>parseInt(s)\<close> without a radix: leading white space and a sign are skipped, a prefix
  \<^verbatim>\<open>0x\<close> selects radix 16, and the longest run of digits is read; \<open>None\<close> is \<open>NaN\<close>,
  the result when there is no digit.
\<close>

definition parseInt :: "string \<Rightarrow> int option" where
  "parseInt s =
     (let t = dropWhile isSpace s;
          sign = (if t \<noteq> [] \<and> hd t = CHR ''-'' then - 1 else 1 :: int);
          u = (if t \<noteq> [] \<and> (hd t = CHR ''-'' \<or> hd t = CHR ''+'') then tl t else t)
      in if take 2 u = ''0x'' \<or> take 2 u = ''0X''
         then (let z = takeWhile isHexDigit (drop 2 u)
               in if z = [] then None else Some (sign * int (natOfHex z)))
         else (let z = takeWhile isDigit u
               in if z = [] then None else Some (sign * int (natOfDigits z))))"

text \<open>\<^verbatim>\<open>parseInt(parsed.query.requestedItems) || 3\<close>: \<open>NaN\<close> and \<open>0\<close> are falsy.\<close>

definition requestedItemsOf :: "jsval \<Rightarrow> int" where
  "requestedItemsOf q =
     (case parseInt (toStringV q) of
        None \<Rightarrow> 3
      | Some n \<Rightarrow> if n = 0 then 3 else n)"

text \<open>The \<^verbatim>\<open>try\<close> block: \<^verbatim>\<open>payload.events || []\<close> after \<^verbatim>\<open>JSON.parse\<close>.\<close>

definition readEvents :: "json option \<Rightarrow> error + json" where
  "readEvents parsed =
     (case parsed of
        None \<Rightarrow> Inl SyntaxError
      | Some payload \<Rightarrow>
          (case getProp (Some payload) ''events'' of
             Inl e \<Rightarrow> Inl e
           | Inr None \<Rightarrow> Inr (JArr [])
           | Inr (Some v) \<Rightarrow> Inr (if truthy (Some v) then v else JArr [])))"

subsection \<open>Logging\<close>

text \<open>The log lines themselves are not modelled, only the places where writing them
  throws.\<close>

text \<open>\<^verbatim>\<open>for (const e of events)\<close>\<close>

fun iterateValue :: "json \<Rightarrow> error + json list" where
  "iterateValue (JArr xs) = Inr xs"
| "iterateValue (JStr s) = Inr (map (\<lambda>c. JStr [c]) s)"
| "iterateValue v = Inl TypeError"

text \<open>The loop that counts the events by \<^verbatim>\<open>e.name\<close>.\<close>

fun readNames :: "json list \<Rightarrow> error option" where
  "readNames [] = None"
| "readNames (e # es) =
     (case getProp (Some e) ''name'' of
        Inl err \<Rightarrow> Some err
      | Inr n \<Rightarrow> readNames es)"

text \<open>\<^verbatim>\<open>new Date(e.timestamp * 1000).toISOString()\<close> throws \<^verbatim>\<open>RangeError\<close> unless the
  time value is a number of at most \<open>8.64 \<times> 10\<^sup>1\<^sup>5\<close> milliseconds in absolute value.\<close>

definition validDate :: "jsval \<Rightarrow> bool" where
  "validDate ts = (case toNumber ts of NaN \<Rightarrow> False | Num t \<Rightarrow> \<bar>t * 1000\<bar> \<le> 8640000000000000)"

text \<open>\<^verbatim>\<open>events.filter(e => e.name === n)\<close> and the details logged for each of these
  events; it runs after \<open>readNames\<close>, so no element is \<^verbatim>\<open>null\<close>.\<close>

definition logDetails :: "string \<Rightarrow> json list \<Rightarrow> error option" where
  "logDetails n xs =
     (if list_all (\<lambda>e. validDate (optGet (Some e) ''timestamp''))
           (filter (\<lambda>e. optGet (Some e) ''name'' = Some (JStr n)) xs)
      then None else Some RangeError)"

text \<open>All the logging before the call of \<^verbatim>\<open>scoreEvents\<close>; \<^verbatim>\<open>filter\<close> exists on arrays
  only. On success the result is the list of the events.\<close>

definition logRequest :: "json \<Rightarrow> error + json list" where
  "logRequest events =
     (case iterateValue events of
        Inl e \<Rightarrow> Inl e
      | Inr es \<Rightarrow>
          (case readNames es of
             Some e \<Rightarrow> Inl e
           | None \<Rightarrow>
               (case events of
                  JArr xs \<Rightarrow>
                    (case logDetails ''MyCustomEvent'' xs of
                       Some e \<Rightarrow> Inl e
                     | None \<Rightarrow>
                         (case logDetails ''MyCustomWishlistEvent'' xs of
                            Some e \<Rightarrow> Inl e
                          | None \<Rightarrow> Inr xs))
                | _ \<Rightarrow> Inl TypeError)))"

text \<open>\<^verbatim>\<open>r.score.toFixed(2)\<close> for each ranked entry: a string has no \<^verbatim>\<open>toFixed\<close>.\<close>

definition logScores :: "(string \<times> cell) list \<Rightarrow> error option" where
  "logScores rs = (if list_all (\<lambda>r. snd r \<noteq> CStr) rs then None else Some TypeError)"

subsection \<open>The handler\<close>

definition handler :: "int \<Rightarrow> request \<Rightarrow> outcome" where
  "handler now req =
     (if reqMethod req = ''GET'' \<and> reqUrl req = ''/health''
      then \<lparr>response = Some \<lparr>status = 200, contentType = Some ''text/plain'', content = Text ''OK''\<rparr>,
            engineCall = None\<rparr>
      else if reqMethod req \<noteq> ''POST''
      then \<lparr>response = Some \<lparr>status = 405, contentType = None, content = Text []\<rparr>,
            engineCall = None\<rparr>
      else
        (let requestedItems = requestedItemsOf (queryRequestedItems req) in
         case readEvents (parsedBody req) of
           Inl e \<Rightarrow>
             \<lparr>response = Some \<lparr>status = 400, contentType = Some ''application/json'',
                               content = Text ''[]''\<rparr>,
              engineCall = None\<rparr>
         | Inr events \<Rightarrow>
             (case logRequest events of
                Inl e \<Rightarrow> \<lparr>response = None, engineCall = None\<rparr>
              | Inr xs \<Rightarrow>
                  (case scoreEvents now xs requestedItems of
                     Inl e \<Rightarrow> \<lparr>response = None, engineCall = Some (xs, requestedItems)\<rparr>
                   | Inr rs \<Rightarrow>
                       (case logScores rs of
                          Some e \<Rightarrow> \<lparr>response = None, engineCall = Some (xs, requestedItems)\<rparr>
                        | None \<Rightarrow>
                            \<lparr>response = Some \<lparr>status = 200, contentType = Some ''application/json'',
                                              content = JsonIds (map fst rs)\<rparr>,
                             engineCall = Some (xs, requestedItems)\<rparr>)))))"

section \<open>Notions of the specification\<close>

text \<open>
  The documented shape of an event,
  \<^verbatim>\<open>{ name: string, timestamp: number, productIds?: [string],
      data?: { products?: [{id: string}], id?: string } }\<close>,
  with every field allowed to be missing.
\<close>

definition documentedProduct :: "json \<Rightarrow> bool" where
  "documentedProduct p = (case optGet (Some p) ''id'' of Some (JStr s) \<Rightarrow> True | _ \<Rightarrow> False)"

definition documentedData :: "json \<Rightarrow> bool" where
  "documentedData d =
     ((case d of JObj kvs \<Rightarrow> True | _ \<Rightarrow> False)
      \<and> (case optGet (Some d) ''products'' of
            None \<Rightarrow> True
          | Some (JArr ps) \<Rightarrow> list_all documentedProduct ps
          | Some v \<Rightarrow> False)
      \<and> (case optGet (Some d) ''id'' of None \<Rightarrow> True | Some (JStr s) \<Rightarrow> True | Some v \<Rightarrow> False))"

definition isStr :: "json \<Rightarrow> bool" where
  "isStr v = (case v of JStr s \<Rightarrow> True | _ \<Rightarrow> False)"

definition documentedEvent :: "json \<Rightarrow> bool" where
  "documentedEvent e =
     ((case e of JObj kvs \<Rightarrow> True | _ \<Rightarrow> False)
      \<and> (case optGet (Some e) ''name'' of None \<Rightarrow> True | Some (JStr s) \<Rightarrow> True | Some v \<Rightarrow> False)
      \<and> (case optGet (Some e) ''timestamp'' of None \<Rightarrow> True | Some (JNum n) \<Rightarrow> True | Some v \<Rightarrow> False)
      \<and> (case optGet (Some e) ''productIds'' of
            None \<Rightarrow> True
          | Some (JArr xs) \<Rightarrow> list_all isStr xs
          | Some v \<Rightarrow> False)
      \<and> (case optGet (Some e) ''data'' of None \<Rightarrow> True | Some d \<Rightarrow> documentedData d))"

text \<open>The three sources of identifiers of an event, each \<open>None\<close> when the event does not
  have it: the explicit list, the product sub-records, the single embedded identifier.\<close>

definition explicitList :: "json \<Rightarrow> jsval list option" where
  "explicitList e =
     (case optGet (Some e) ''productIds'' of
        Some (JArr xs) \<Rightarrow> Some (map Some xs)
      | _ \<Rightarrow> None)"

definition subRecordIds :: "json \<Rightarrow> jsval list option" where
  "subRecordIds e =
     (case optGet (optGet (Some e) ''data'') ''products'' of
        Some (JArr ps) \<Rightarrow> Some (map (\<lambda>p. optGet (Some p) ''id'') ps)
      | _ \<Rightarrow> None)"

definition embeddedId :: "json \<Rightarrow> jsval list option" where
  "embeddedId e =
     (case optGet (optGet (Some e) ''data'') ''id'' of
        Some (JStr s) \<Rightarrow> if s = [] then None else Some [Some (JStr s)]
      | _ \<Rightarrow> None)"

text \<open>The extraction policy in the words of the specification: the first source that is
  not empty wins.\<close>

definition firstNonEmptySource :: "json \<Rightarrow> jsval list" where
  "firstNonEmptySource e =
     (case explicitList e of
        Some (x # xs) \<Rightarrow> x # xs
      | _ \<Rightarrow>
          (case subRecordIds e of
             Some (y # ys) \<Rightarrow> y # ys
           | _ \<Rightarrow> (case embeddedId e of Some zs \<Rightarrow> zs | None \<Rightarrow> [])))"

text \<open>The policy with \<open>present\<close> in the place of \<open>not empty\<close>: a list that is there wins
  even when it is empty.\<close>

definition firstPresentSource :: "json \<Rightarrow> jsval list" where
  "firstPresentSource e =
     (case explicitList e of
        Some xs \<Rightarrow> xs
      | None \<Rightarrow>
          (case subRecordIds e of
             Some ys \<Rightarrow> ys
           | None \<Rightarrow> (case embeddedId e of Some zs \<Rightarrow> zs | None \<Rightarrow> [])))"

text \<open>An event whose name is exactly \<^verbatim>\<open>Purchase\<close>.\<close>

definition isPurchase :: "json \<Rightarrow> bool" where
  "isPurchase e = (getProp (Some e) ''name'' = Inr (Some (JStr ''Purchase'')))"

text \<open>The keys under which an event that is not a purchase adds to \<^verbatim>\<open>scores\<close>, and the
  values a purchase adds to \<^verbatim>\<open>purchased\<close>.\<close>

definition eventKeys :: "json \<Rightarrow> string list" where
  "eventKeys e =
     (case extractIds e of
        Inl err \<Rightarrow> []
      | Inr ids \<Rightarrow> (case iterateIds ids of Inl err \<Rightarrow> [] | Inr xs \<Rightarrow> map toStringV xs))"

definition eventPurchases :: "json \<Rightarrow> jsval list" where
  "eventPurchases e =
     (case extractIds e of
        Inl err \<Rightarrow> []
      | Inr ids \<Rightarrow> (case forEachIds ids of Inl err \<Rightarrow> [] | Inr xs \<Rightarrow> xs))"

text \<open>The keys that receive a contribution, in the order of the contributions; the set
  of these keys; and all values that some purchase of the list excludes.\<close>

definition contributionKeys :: "json list \<Rightarrow> string list" where
  "contributionKeys evs = concat (map eventKeys (filter (\<lambda>e. \<not> isPurchase e) evs))"

definition scoredKeys :: "json list \<Rightarrow> string set" where
  "scoredKeys evs = set (contributionKeys evs)"

definition purchasedValues :: "json list \<Rightarrow> jsval set" where
  "purchasedValues evs = (\<Union>e \<in> set (filter isPurchase evs). set (eventPurchases e))"

text \<open>The identifiers of the specification's count: those that received a contribution
  and were not purchased.\<close>

definition scoredNotPurchased :: "json list \<Rightarrow> string set" where
  "scoredNotPurchased evs = {k \<in> scoredKeys evs. Some (JStr k) \<notin> purchasedValues evs}"

text \<open>The first-seen order: the keys in the order of their first contribution.\<close>

fun firstSeen :: "string list \<Rightarrow> string list \<Rightarrow> string list" where
  "firstSeen acc [] = acc"
| "firstSeen acc (k # ks) = firstSeen (if k \<in> set acc then acc else acc @ [k]) ks"

definition firstSeenOrder :: "json list \<Rightarrow> string list" where
  "firstSeenOrder evs = firstSeen [] (contributionKeys evs)"

text \<open>What the loop maintains of \<^verbatim>\<open>scores\<close>: an object has each key once, and no own
  property \<^verbatim>\<open>__proto__\<close> is ever created by an assignment.\<close>

definition goodScores :: "scoresObj \<Rightarrow> bool" where
  "goodScores props = (distinct (map fst props) \<and> ''__proto__'' \<notin> fst ` set props)"

text \<open>An event of the documented shape that carries an explicit list of identifiers.\<close>

definition listEvent :: "string \<Rightarrow> int \<Rightarrow> string list \<Rightarrow> json" where
  "listEvent n t ids =
     JObj [(''name'', JStr n), (''timestamp'', JNum t), (''productIds'', JArr (map JStr ids))]"

text \<open>The recency factor of an event whose timestamp is the integer \<open>ts\<close>, scored when
  the clock shows \<open>now\<close>: its age is a whole number of seconds.\<close>

definition eventRecency :: "int \<Rightarrow> int \<Rightarrow> real" where
  "eventRecency now ts = recencyFactor ((real_of_int now - real_of_int ts) / 86400)"

section \<open>Recency\<close>

lemma recencyFactor_power:
  "age < 7525 \<Longrightarrow> recencyFactor age = (1 / 2) powr (age / 7)"
  by (simp add: recencyFactor_def RECENCY_HALF_LIFE_DAYS_def)

lemma recencyFactor_underflow: "7525 \<le> age \<Longrightarrow> recencyFactor age = 0"
  by (simp add: recencyFactor_def RECENCY_HALF_LIFE_DAYS_def)

lemma recencyFactor_nonneg: "0 \<le> recencyFactor age"
  by (simp add: recencyFactor_def)

lemma recencyFactor_strict_antimono:
  assumes "a < b" and "b < 7525"
  shows "recencyFactor b < recencyFactor a"
proof -
  have "(1 / 2 :: real) powr (b / 7) < (1 / 2) powr (a / 7)"
    using assms(1) by (intro powr_less_mono') simp_all
  then show ?thesis using assms by (simp add: recencyFactor_power)
qed

lemma recencyFactor_antimono:
  assumes "a \<le> b"
  shows "recencyFactor b \<le> recencyFactor a"
proof (cases "b < 7525")
  case True
  then show ?thesis
    using assms recencyFactor_strict_antimono [of a b] by (cases "a = b") auto
next
  case False
  then show ?thesis by (simp add: recencyFactor_underflow recencyFactor_nonneg)
qed

lemma recencyFactor_zero: "recencyFactor 0 = 1"
  by (simp add: recencyFactor_power)

lemma recencyFactor_half_life: "recencyFactor RECENCY_HALF_LIFE_DAYS = 1 / 2"
  by (simp add: recencyFactor_power RECENCY_HALF_LIFE_DAYS_def)

lemma recencyFactor_future: "a < 0 \<Longrightarrow> 1 < recencyFactor a"
  using recencyFactor_strict_antimono [of a 0] by (simp add: recencyFactor_zero)

lemma recency_timestamp:
  "recency (ageInDays now (Some (JNum ts))) = Num (eventRecency now ts)"
  by (simp add: ageInDays_def eventRecency_def)

lemma eventRecency_antimono:
  assumes "t1 \<le> t2"
  shows "eventRecency now t1 \<le> eventRecency now t2"
proof -
  have "(real_of_int now - real_of_int t2) / 86400 \<le> (real_of_int now - real_of_int t1) / 86400"
    using assms by (simp add: divide_right_mono)
  then show ?thesis unfolding eventRecency_def by (rule recencyFactor_antimono)
qed

lemma eventRecency_strict:
  assumes "t1 < t2" and "now - t1 \<le> 7154 * 86400"
  shows "eventRecency now t1 < eventRecency now t2"
proof -
  have "(real_of_int now - real_of_int t2) / 86400 < (real_of_int now - real_of_int t1) / 86400"
    using assms(1) by (simp add: divide_strict_right_mono)
  moreover have "real_of_int (now - t1) \<le> real_of_int (7154 * 86400)"
    using assms(2) by (simp only: of_int_le_iff)
  then have "(real_of_int now - real_of_int t1) / 86400 < 7525"
    by simp
  ultimately show ?thesis unfolding eventRecency_def by (rule recencyFactor_strict_antimono)
qed

lemma eventRecency_underflow:
  assumes "7525 * 86400 \<le> now - ts"
  shows "eventRecency now ts = 0"
proof -
  have "real_of_int (7525 * 86400) \<le> real_of_int (now - ts)"
    using assms by (simp only: of_int_le_iff)
  then have "7525 \<le> (real_of_int now - real_of_int ts) / 86400"
    by simp
  then show ?thesis unfolding eventRecency_def by (rule recencyFactor_underflow)
qed

lemma eventRecency_future:
  assumes "now < ts"
  shows "1 < eventRecency now ts"
proof -
  have "(real_of_int now - real_of_int ts) / 86400 < 0"
    using assms by (simp add: divide_neg_pos)
  then show ?thesis unfolding eventRecency_def by (rule recencyFactor_future)
qed

lemma contribution_fresh:
  "lookupWeight name = WNum w \<Longrightarrow> contribution now name (Some (JNum now)) = Num (w * 1)"
  by (simp add: contribution_def ageInDays_def recencyFactor_zero)

lemma contribution_half_life:
  "lookupWeight name = WNum w \<Longrightarrow>
   contribution now name (Some (JNum (now - 7 * 86400))) = Num (w * (1 / 2))"
  using recencyFactor_half_life
  by (simp add: contribution_def ageInDays_def RECENCY_HALF_LIFE_DAYS_def)

text \<open>
  C4 (as the code has it). The recency factor of an event is \<open>Math.pow(0.5, age / 7)\<close>,
  the age counted from its timestamp. It does not increase with the age; it decreases
  strictly from one timestamp to a later one as long as the age is at most \<open>7154\<close> days
  (where the power is a normal double), and it is exactly \<open>0\<close> from the age of \<open>7525\<close>
  days on, where the power underflows. It is \<open>1\<close> at age \<open>0\<close> and \<open>1/2\<close> at the half-life
  of \<open>7\<close> days, so that an event with a numeric weight \<open>w\<close> contributes \<open>w * 1\<close> when its
  timestamp is \<open>now\<close> and \<open>w * 0.5\<close> when it is seven days old; an event whose timestamp
  lies in the future has a factor above \<open>1\<close>.
\<close>

theorem recency_decay_profile:
  "(\<forall>now ts. recency (ageInDays now (Some (JNum ts))) = Num (eventRecency now ts))
   \<and> (\<forall>a b. 0 \<le> a \<and> a \<le> b \<longrightarrow> recencyFactor b \<le> recencyFactor a)
   \<and> (\<forall>now t1 t2. t1 < t2 \<and> t2 \<le> now \<and> now - t1 \<le> 7154 * 86400 \<longrightarrow>
          eventRecency now t1 < eventRecency now t2)
   \<and> (\<forall>a. 7525 \<le> a \<longrightarrow> recencyFactor a = 0)
   \<and> recencyFactor 0 = 1
   \<and> RECENCY_HALF_LIFE_DAYS = 7
   \<and> recencyFactor RECENCY_HALF_LIFE_DAYS = 1 / 2
   \<and> (\<forall>now name w. lookupWeight name = WNum w \<longrightarrow>
          contribution now name (Some (JNum now)) = Num (w * 1)
        \<and> contribution now name (Some (JNum (now - 7 * 86400))) = Num (w * (1 / 2)))
   \<and> (\<forall>now ts. now < ts \<longrightarrow> 1 < eventRecency now ts)"
proof -
  have link: "\<forall>now ts. recency (ageInDays now (Some (JNum ts))) = Num (eventRecency now ts)"
    by (simp add: recency_timestamp)
  have mono: "\<forall>a b. 0 \<le> a \<and> a \<le> b \<longrightarrow> recencyFactor b \<le> recencyFactor a"
    by (simp add: recencyFactor_antimono)
  have strict: "\<forall>now t1 t2. t1 < t2 \<and> t2 \<le> now \<and> now - t1 \<le> 7154 * 86400 \<longrightarrow>
          eventRecency now t1 < eventRecency now t2"
    using eventRecency_strict by blast
  have zero: "\<forall>a. 7525 \<le> a \<longrightarrow> recencyFactor a = 0"
    by (simp add: recencyFactor_underflow)
  have contrib: "\<forall>now name w. lookupWeight name = WNum w \<longrightarrow>
          contribution now name (Some (JNum now)) = Num (w * 1)
        \<and> contribution now name (Some (JNum (now - 7 * 86400))) = Num (w * (1 / 2))"
    using contribution_fresh contribution_half_life by blast
  have future: "\<forall>now ts. now < ts \<longrightarrow> 1 < eventRecency now ts"
    using eventRecency_future by blast
  have half: "RECENCY_HALF_LIFE_DAYS = 7" by (simp add: RECENCY_HALF_LIFE_DAYS_def)
  show ?thesis
    using link mono strict zero contrib future half recencyFactor_zero recencyFactor_half_life
    by blast
qed

theorem recency_decay_profile_witness:
  "recencyFactor 9000 \<le> recencyFactor 8000
   \<and> eventRecency 1000 0 < eventRecency 1000 1
   \<and> recencyFactor 7525 = 0
   \<and> contribution 1000 (Some (JStr ''ProductAddToCart'')) (Some (JNum 1000)) = Num 10
   \<and> contribution 604800 (Some (JStr ''ProductAddToCart'')) (Some (JNum 0)) = Num 5
   \<and> recency (ageInDays 1000 (Some (JNum 2000))) = Num (eventRecency 1000 2000)
   \<and> 1 < eventRecency 1000 2000"
proof -
  have w: "lookupWeight (Some (JStr ''ProductAddToCart'')) = WNum 10"
    by (simp add: lookupWeight_def toStringV_def EVENT_WEIGHTS_def)
  have a: "recencyFactor 9000 \<le> recencyFactor 8000"
    using recency_decay_profile by simp
  have "(0::int) < 1 \<and> (1::int) \<le> 1000 \<and> (1000::int) - 0 \<le> 7154 * 86400" by simp
  then have s: "eventRecency 1000 0 < eventRecency 1000 1"
    using recency_decay_profile by blast
  have z: "recencyFactor 7525 = 0"
    using recency_decay_profile by simp
  have b: "contribution 1000 (Some (JStr ''ProductAddToCart'')) (Some (JNum 1000)) = Num 10"
    using recency_decay_profile w by simp
  have "contribution 604800 (Some (JStr ''ProductAddToCart'')) (Some (JNum (604800 - 7 * 86400)))
        = Num (10 * (1 / 2))"
    using recency_decay_profile w by blast
  then have c: "contribution 604800 (Some (JStr ''ProductAddToCart'')) (Some (JNum 0)) = Num 5"
    by simp
  have d: "recency (ageInDays 1000 (Some (JNum 2000))) = Num (eventRecency 1000 2000)"
    using recency_decay_profile by blast
  have "(1000::int) < 2000" by simp
  then have e: "1 < eventRecency 1000 2000"
    using recency_decay_profile by blast
  show ?thesis using a s z b c d e by simp
qed

text \<open>C4 as stated fails: with the clock at \<open>1700000000\<close>, the timestamp \<open>0\<close> is older than
  the timestamp \<open>1000\<close>, both ages are positive, and both factors are \<open>0\<close>: the factor is
  not strictly decreasing.\<close>

theorem recency_not_strict_counterexample:
  "(0 :: real) \<le> (1700000000 - 1000) / 86400
   \<and> (1700000000 - 1000) / 86400 < (1700000000 - 0) / (86400 :: real)
   \<and> recency (ageInDays 1700000000 (Some (JNum 1000))) = Num 0
   \<and> recency (ageInDays 1700000000 (Some (JNum 0))) = Num 0
   \<and> \<not> recencyFactor ((1700000000 - 0) / 86400) < recencyFactor ((1700000000 - 1000) / 86400)"
  by (simp add: ageInDays_def recencyFactor_def RECENCY_HALF_LIFE_DAYS_def)

section \<open>The requested number of items\<close>

lemma engineCall_limit:
  "engineCall (handler now req) = Some (evs, l) \<Longrightarrow>
   l = requestedItemsOf (queryRequestedItems req) \<and> l \<noteq> 0"
  by (auto simp: handler_def requestedItemsOf_def Let_def
           split: if_splits sum.splits option.splits)

text \<open>
  C10. A \<^verbatim>\<open>requestedItems\<close> parameter that parses to \<open>0\<close> (such as the text \<^verbatim>\<open>0\<close>) is
  treated as an absent or non-numeric one: the limit is the default \<open>3\<close>, and whenever
  the handler calls the scoring engine the limit it passes is not \<open>0\<close>.
\<close>

theorem requestedItems_zero_is_default:
  "(parseInt (toStringV q) = Some 0 \<longrightarrow> requestedItemsOf q = 3)
   \<and> (parseInt (toStringV q) = None \<longrightarrow> requestedItemsOf q = 3)
   \<and> requestedItemsOf None = 3
   \<and> requestedItemsOf (Some (JStr ''0'')) = 3
   \<and> requestedItemsOf (Some (JStr ''abc'')) = 3
   \<and> (engineCall (handler now req) = Some (evs, l) \<longrightarrow>
         l = requestedItemsOf (queryRequestedItems req) \<and> l \<noteq> 0)"
proof -
  have "requestedItemsOf None = 3"
    by (simp add: requestedItemsOf_def parseInt_def toStringV_def isSpace_def isDigit_def)
  moreover have "requestedItemsOf (Some (JStr ''0'')) = 3"
    by (simp add: requestedItemsOf_def parseInt_def toStringV_def isSpace_def isDigit_def
                  natOfDigits_def digitVal_def)
  moreover have "requestedItemsOf (Some (JStr ''abc'')) = 3"
    by (simp add: requestedItemsOf_def parseInt_def toStringV_def isSpace_def isDigit_def)
  ultimately show ?thesis
    using engineCall_limit [of now req evs l] by (simp add: requestedItemsOf_def)
qed

theorem requestedItems_zero_is_default_witness:
  "parseInt (toStringV (Some (JStr ''0''))) = Some 0
   \<and> requestedItemsOf (Some (JStr ''0'')) = 3
   \<and> engineCall (handler 1000 \<lparr>reqMethod = ''POST'', reqUrl = ''/recommend?requestedItems=0'',
         queryRequestedItems = Some (JStr ''0''), parsedBody = Some (JObj [])\<rparr>) = Some ([], 3)"
proof -
  let ?req = "\<lparr>reqMethod = ''POST'', reqUrl = ''/recommend?requestedItems=0'',
         queryRequestedItems = Some (JStr ''0''), parsedBody = Some (JObj [])\<rparr>"
  have p: "parseInt (toStringV (Some (JStr ''0''))) = Some 0"
    by (simp add: parseInt_def toStringV_def isSpace_def isDigit_def natOfDigits_def digitVal_def)
  have r: "requestedItemsOf (Some (JStr ''0'')) = 3"
    using requestedItems_zero_is_default [of "Some (JStr ''0'')"] p by simp
  have "\<exists>l. engineCall (handler 1000 ?req) = Some ([], l)"
    by (simp add: handler_def readEvents_def logRequest_def logDetails_def logScores_def
                  scoreEvents_def ranked_def objectEntries_def sortBy_def slice0_def Let_def)
  then obtain l where l: "engineCall (handler 1000 ?req) = Some ([], l)" ..
  then have "l = requestedItemsOf (queryRequestedItems ?req)"
    using requestedItems_zero_is_default [of _ 1000 ?req "[]" l] by blast
  then have "l = 3" using r by simp
  then show ?thesis using p r l by simp
qed

section \<open>Extraction on events of the documented shape\<close>

lemma mapIds_nonnull:
  "\<forall>p \<in> set ps. p \<noteq> JNull \<Longrightarrow> mapIds ps = Inr (map (\<lambda>p. optGet (Some p) ''id'') ps)"
proof (induction ps)
  case Nil
  then show ?case by simp
next
  case (Cons p ps)
  then have "p \<noteq> JNull" by simp
  then have "getProp (Some p) ''id'' = Inr (optGet (Some p) ''id'')"
    by (cases p) (simp_all add: optGet_def)
  with Cons show ?case by simp
qed

lemma documentedProduct_nonnull: "documentedProduct p \<Longrightarrow> p \<noteq> JNull"
  by (auto simp: documentedProduct_def optGet_def)

lemma getProp_optGet: "e \<noteq> JNull \<Longrightarrow> getProp (Some e) k = Inr (optGet (Some e) k)"
  by (cases e) (simp_all add: optGet_def)

lemma documentedEvent_nonnull: "documentedEvent e \<Longrightarrow> e \<noteq> JNull"
  by (auto simp: documentedEvent_def)

lemma productsIds_documented:
  assumes "case d of None \<Rightarrow> True | Some j \<Rightarrow> documentedData j"
  shows "productsIds d =
     Inr (case optGet d ''products'' of Some (JArr ps) \<Rightarrow> Some (map (\<lambda>p. optGet (Some p) ''id'') ps) | _ \<Rightarrow> None)"
proof (cases d)
  case None
  then show ?thesis by (simp add: productsIds_def optGet_def)
next
  case (Some j)
  with assms have dd: "documentedData j" by simp
  show ?thesis
  proof (cases "optGet d ''products''")
    case None
    then show ?thesis by (simp add: productsIds_def)
  next
    case (Some v)
    with dd \<open>d = Some j\<close> obtain ps where v: "v = JArr ps" and all: "list_all documentedProduct ps"
      by (auto simp: documentedData_def split: json.splits)
    then have "\<forall>p \<in> set ps. p \<noteq> JNull"
      by (auto simp: list_all_iff documentedProduct_nonnull)
    then show ?thesis
      using Some v by (simp add: productsIds_def mapIds_nonnull)
  qed
qed

lemma extractFromData_documented:
  assumes "documentedEvent e" and "optGet (Some e) ''productIds'' = None"
  shows "extractFromData e = Inr (IdArray (firstPresentSource e))"
proof -
  let ?d = "optGet (Some e) ''data''"
  have nn: "e \<noteq> JNull" using assms(1) by (rule documentedEvent_nonnull)
  have dd: "case ?d of None \<Rightarrow> True | Some j \<Rightarrow> documentedData j"
    using assms(1) by (simp add: documentedEvent_def)
  have ex: "explicitList e = None" using assms(2) by (simp add: explicitList_def)
  have idshape: "case optGet ?d ''id'' of None \<Rightarrow> True | Some (JStr s) \<Rightarrow> True | Some v \<Rightarrow> False"
    using dd by (cases ?d) (auto simp: documentedData_def optGet_def)
  have third: "(if truthy (optGet ?d ''id'') then [optGet ?d ''id''] else []) 
        = (case embeddedId e of Some zs \<Rightarrow> zs | None \<Rightarrow> [])"
    using idshape by (auto simp: embeddedId_def split: option.splits json.splits)
  show ?thesis
    using third
    by (auto simp: extractFromData_def getProp_optGet [OF nn] productsIds_documented [OF dd]
        firstPresentSource_def ex subRecordIds_def split: option.splits json.splits)
qed

lemma extractIds_documented:
  assumes "documentedEvent e"
  shows "extractIds e = Inr (IdArray (firstPresentSource e))"
proof -
  have nn: "e \<noteq> JNull" using assms by (rule documentedEvent_nonnull)
  show ?thesis
  proof (cases "optGet (Some e) ''productIds''")
    case None
    then show ?thesis
      using extractFromData_documented [OF assms None]
      by (simp add: extractIds_def getProp_optGet [OF nn])
  next
    case (Some v)
    with assms obtain xs where "v = JArr xs"
      by (auto simp: documentedEvent_def split: json.splits)
    then show ?thesis
      using Some by (simp add: extractIds_def getProp_optGet [OF nn] firstPresentSource_def explicitList_def)
  qed
qed

lemma policies_agree:
  "explicitList e \<noteq> Some [] \<Longrightarrow> (explicitList e = None \<longrightarrow> subRecordIds e \<noteq> Some []) \<Longrightarrow> firstPresentSource e = firstNonEmptySource e"
  by (auto simp: firstPresentSource_def firstNonEmptySource_def split: option.splits list.splits)

section \<open>The accumulator and the ranking\<close>

lemma map_fst_updateOwn: "map fst (updateOwn k v props) = map fst props"
  by (induction props) (auto simp: updateOwn_def)

lemma proto_in_objectPrototypeKeys: "''__proto__'' \<in> set objectPrototypeKeys"
  by (simp add: objectPrototypeKeys_def)

lemma addScore_own:
  "map_of props k = Some old \<Longrightarrow> addScore c props k = updateOwn k (plusCell old c) props"
  by (simp add: addScore_def)

lemma addScore_new:
  "map_of props k = None \<Longrightarrow>
   addScore c props k =
     (if k = ''__proto__'' then props
      else props @ [(k, if k \<in> set objectPrototypeKeys then CStr else CNum (addNum (Num 0) c))])"
  using proto_in_objectPrototypeKeys by (auto simp: addScore_def)

lemma addScore_keys:
  assumes "''__proto__'' \<notin> fst ` set props"
  shows "fst ` set (addScore c props k) = fst ` set props \<union> ({k} - {''__proto__''})"
proof (cases "map_of props k")
  case None
  then show ?thesis by (auto simp: addScore_new)
next
  case (Some old)
  then have "(k, old) \<in> set props" by (rule map_of_SomeD)
  then have k: "k \<in> fst ` set props" by force
  have "fst ` set (updateOwn k (plusCell old c) props) = fst ` set props"
    using map_fst_updateOwn [of k "plusCell old c" props] by (metis set_map)
  then show ?thesis using Some k by (auto simp: addScore_own)
qed

lemma addScore_distinct:
  assumes "distinct (map fst props)"
  shows "distinct (map fst (addScore c props k))"
proof (cases "map_of props k")
  case None
  then have "k \<notin> fst ` set props" by (simp add: map_of_eq_None_iff)
  then show ?thesis using None assms by (simp add: addScore_new)
next
  case (Some old)
  then show ?thesis using assms by (simp add: addScore_own map_fst_updateOwn)
qed

lemma addScore_good: "goodScores props \<Longrightarrow> goodScores (addScore c props k)"
  by (auto simp: goodScores_def addScore_distinct addScore_keys)

lemma foldl_addScore_good: "goodScores props \<Longrightarrow> goodScores (foldl (addScore c) props ks)"
  by (induction ks arbitrary: props) (simp_all add: addScore_good)

lemma foldl_addScore_keys:
  "goodScores props \<Longrightarrow>
   fst ` set (foldl (addScore c) props ks) = fst ` set props \<union> (set ks - {''__proto__''})"
proof (induction ks arbitrary: props)
  case Nil
  then show ?case by simp
next
  case (Cons k ks)
  have g: "goodScores (addScore c props k)" using Cons.prems by (rule addScore_good)
  have "fst ` set (addScore c props k) = fst ` set props \<union> ({k} - {''__proto__''})"
    using Cons.prems by (simp add: goodScores_def addScore_keys)
  then show ?case using Cons.IH [OF g] by auto
qed

lemma processEvent_purchase:
  assumes "isPurchase e" and "processEvent now st e = Inr st'"
  shows "scores st' = scores st \<and> purchased st' = purchased st @ eventPurchases e"
  using assms
  by (auto simp: processEvent_def isPurchase_def eventPurchases_def split: sum.splits)

lemma processEvent_other:
  assumes "\<not> isPurchase e" and "processEvent now st e = Inr st'"
  shows "purchased st' = purchased st
     \<and> (\<exists>c. scores st' = foldl (addScore c) (scores st) (eventKeys e))"
  using assms
  by (auto simp: processEvent_def isPurchase_def eventKeys_def split: sum.splits if_splits)

lemma scoredKeys_Cons:
  "scoredKeys (e # evs) = (if isPurchase e then {} else set (eventKeys e)) \<union> scoredKeys evs"
  by (auto simp: scoredKeys_def contributionKeys_def)

lemma purchasedValues_Cons:
  "purchasedValues (e # evs) = (if isPurchase e then set (eventPurchases e) else {}) \<union> purchasedValues evs"
  by (auto simp: purchasedValues_def)

lemma scoreLoop_effect:
  assumes "scoreLoop now st evs = Inr st'" and "goodScores (scores st)"
  shows "goodScores (scores st')
     \<and> fst ` set (scores st') = fst ` set (scores st) \<union> (scoredKeys evs - {''__proto__''})
     \<and> set (purchased st') = set (purchased st) \<union> purchasedValues evs"
  using assms
proof (induction evs arbitrary: st)
  case Nil
  then show ?case by (simp add: scoredKeys_def contributionKeys_def purchasedValues_def)
next
  case (Cons e evs)
  from Cons.prems(1) obtain st1 where step: "processEvent now st e = Inr st1"
    and rest: "scoreLoop now st1 evs = Inr st'"
    by (auto split: sum.splits)
  show ?case
  proof (cases "isPurchase e")
    case True
    from processEvent_purchase [OF True step]
    have s: "scores st1 = scores st" and p: "purchased st1 = purchased st @ eventPurchases e" by simp_all
    have g: "goodScores (scores st1)" using s Cons.prems(2) by simp
    from Cons.IH [OF rest g] show ?thesis
      using s p True by (auto simp: scoredKeys_Cons purchasedValues_Cons)
  next
    case False
    from processEvent_other [OF False step] obtain c where
      p: "purchased st1 = purchased st" and s: "scores st1 = foldl (addScore c) (scores st) (eventKeys e)"
      by blast
    have g: "goodScores (scores st1)" using s Cons.prems(2) by (simp add: foldl_addScore_good)
    have k: "fst ` set (scores st1) = fst ` set (scores st) \<union> (set (eventKeys e) - {''__proto__''})"
      using s Cons.prems(2) by (simp add: foldl_addScore_keys)
    from Cons.IH [OF rest g] show ?thesis
      using k p False by (auto simp: scoredKeys_Cons purchasedValues_Cons)
  qed
qed

lemma set_objectEntries: "set (objectEntries props) = set props"
  by (auto simp: objectEntries_def)

lemma length_objectEntries: "length (objectEntries props) = length props"
  by (simp add: objectEntries_def sum_length_filter_compl)

lemma distinct_objectEntries:
  assumes "distinct (map fst props)"
  shows "distinct (map fst (objectEntries props))"
proof -
  have "length (map fst (objectEntries props)) = length props"
    by (simp add: length_objectEntries)
  moreover have "set (map fst (objectEntries props)) = set (map fst props)"
    by (simp add: set_objectEntries)
  moreover have "card (set (map fst props)) = length props"
    using assms distinct_card by fastforce
  ultimately show ?thesis
    by (metis card_distinct)
qed

lemma set_insortBy: "set (insortBy cmp x ys) = insert x (set ys)"
  by (induction ys) auto

lemma length_insortBy: "length (insortBy cmp x ys) = Suc (length ys)"
  by (induction ys) auto

lemma set_sortBy: "set (sortBy cmp xs) = set xs"
  by (induction xs) (simp_all add: sortBy_def set_insortBy)

lemma length_sortBy: "length (sortBy cmp xs) = length xs"
  by (induction xs) (simp_all add: sortBy_def length_insortBy)

lemma distinct_keys_sortBy:
  assumes "distinct (map fst xs)"
  shows "distinct (map fst (sortBy cmp xs))"
proof -
  have "card (set (map fst xs)) = length xs"
    using assms distinct_card by fastforce
  then have "card (set (map fst (sortBy cmp xs))) = length (map fst (sortBy cmp xs))"
    by (simp add: set_sortBy length_sortBy)
  then show ?thesis by (rule card_distinct)
qed

lemma length_slice0: "0 \<le> k \<Longrightarrow> length (slice0 k xs) = min (nat k) (length xs)"
  by (auto simp: slice0_def Let_def min_def)

lemma set_slice0: "set (slice0 k xs) \<subseteq> set xs"
  by (auto simp: slice0_def Let_def dest: in_set_takeD)

lemma distinct_keys_nonPurchased:
  "distinct (map fst (scores st)) \<Longrightarrow> distinct (map fst (nonPurchased st))"
  by (simp add: nonPurchased_def distinct_map_filter distinct_objectEntries)

lemma keys_nonPurchased:
  "fst ` set (nonPurchased st) = {i \<in> fst ` set (scores st). \<not> purchasedHas (purchased st) i}"
  by (auto simp: nonPurchased_def set_objectEntries)

lemma length_nonPurchased:
  assumes "distinct (map fst (scores st))"
  shows "length (nonPurchased st) = card {i \<in> fst ` set (scores st). \<not> purchasedHas (purchased st) i}"
proof -
  have "length (nonPurchased st) = length (map fst (nonPurchased st))" by simp
  also have "\<dots> = card (set (map fst (nonPurchased st)))"
    using distinct_keys_nonPurchased [OF assms] by (simp only: distinct_card)
  also have "\<dots> = card {i \<in> fst ` set (scores st). \<not> purchasedHas (purchased st) i}"
    by (simp add: keys_nonPurchased)
  finally show ?thesis .
qed

lemma goodScores_initial: "goodScores (scores initialState)"
  by (simp add: goodScores_def initialState_def)

lemma final_available:
  assumes "scoreLoop now initialState evs = Inr st"
  shows "{i \<in> fst ` set (scores st). \<not> purchasedHas (purchased st) i} = scoredNotPurchased evs - {''__proto__''}"
  using scoreLoop_effect [OF assms goodScores_initial]
  by (auto simp: purchasedHas_def scoredNotPurchased_def initialState_def)

lemma ranked_length_general:
  assumes "scoreEvents now evs k = Inr rs" and "0 \<le> k"
  shows "length rs = min (nat k) (card (scoredNotPurchased evs - {''__proto__''}))"
proof -
  from assms(1) obtain st where loop: "scoreLoop now initialState evs = Inr st"
    and rs: "rs = ranked st k"
    by (auto simp: scoreEvents_def split: sum.splits)
  have d: "distinct (map fst (scores st))"
    using scoreLoop_effect [OF loop goodScores_initial] by (simp add: goodScores_def)
  show ?thesis
    using assms(2) by (simp add: rs ranked_def length_slice0 length_sortBy length_nonPurchased [OF d] final_available [OF loop])
qed

section \<open>Purchases, totality and the order of ties\<close>

lemma processEvent_documented:
  assumes "documentedEvent e"
  shows "\<exists>st'. processEvent now st e = Inr st'"
proof -
  have nn: "e \<noteq> JNull" using assms by (rule documentedEvent_nonnull)
  show ?thesis
    by (simp add: processEvent_def extractIds_documented [OF assms] getProp_optGet [OF nn])
qed

lemma scoreLoop_documented:
  "list_all documentedEvent evs \<Longrightarrow> \<exists>st'. scoreLoop now st evs = Inr st'"
proof (induction evs arbitrary: st)
  case Nil
  then show ?case by simp
next
  case (Cons e evs)
  then obtain st1 where "processEvent now st e = Inr st1"
    using processEvent_documented [of e now st] by auto
  then show ?case using Cons by simp
qed

lemma scoreEvents_documented:
  "list_all documentedEvent evs \<Longrightarrow> \<exists>rs. scoreEvents now evs k = Inr rs"
  using scoreLoop_documented [of evs now initialState]
  by (auto simp: scoreEvents_def)

lemma eventPurchases_array: "extractIds e = Inr (IdArray xs) \<Longrightarrow> eventPurchases e = xs"
  by (simp add: eventPurchases_def)

lemma purchased_not_ranked:
  assumes "purchasedHas (purchased st) X"
  shows "X \<notin> fst ` set (ranked st k)"
proof
  assume "X \<in> fst ` set (ranked st k)"
  then obtain c where "(X, c) \<in> set (ranked st k)" by auto
  then have "(X, c) \<in> set (nonPurchased st)"
    using set_slice0 [of k "sortBy compareScores (nonPurchased st)"]
    by (auto simp: ranked_def set_sortBy)
  then show False using assms by (simp add: nonPurchased_def)
qed

lemma purchase_excluded:
  assumes "scoreEvents now evs k = Inr rs" and "e \<in> set evs" and "isPurchase e"
    and "extractIds e = Inr (IdArray xs)" and "Some (JStr X) \<in> set xs"
  shows "X \<notin> fst ` set rs"
proof -
  from assms(1) obtain st where loop: "scoreLoop now initialState evs = Inr st"
    and rs: "rs = ranked st k"
    by (auto simp: scoreEvents_def split: sum.splits)
  have "Some (JStr X) \<in> purchasedValues evs"
    using assms(2,3,5) eventPurchases_array [OF assms(4)] by (auto simp: purchasedValues_def)
  then have "purchasedHas (purchased st) X"
    using scoreLoop_effect [OF loop goodScores_initial] by (simp add: purchasedHas_def)
  then show ?thesis unfolding rs by (rule purchased_not_ranked)
qed

lemma processEvent_other_scores:
  assumes "\<not> isPurchase e" and "processEvent now st e = Inr st1" and "scores sta = scores st"
  shows "\<exists>sta1. processEvent now sta e = Inr sta1 \<and> scores sta1 = scores st1"
  using assms
  by (auto simp: processEvent_def isPurchase_def split: sum.splits if_splits)

lemma scoreLoop_without_purchases:
  assumes "scoreLoop now st evs = Inr st2" and "scores sta = scores st"
  shows "\<exists>st3. scoreLoop now sta (filter (\<lambda>e. \<not> isPurchase e) evs) = Inr st3 \<and> scores st3 = scores st2"
  using assms
proof (induction evs arbitrary: st sta)
  case Nil
  then show ?case by simp
next
  case (Cons e evs)
  from Cons.prems(1) obtain st1 where step: "processEvent now st e = Inr st1"
    and rest: "scoreLoop now st1 evs = Inr st2"
    by (auto split: sum.splits)
  show ?case
  proof (cases "isPurchase e")
    case True
    then have "scores st1 = scores st" using processEvent_purchase [OF True step] by simp
    then have "scores sta = scores st1" using Cons.prems(2) by simp
    from Cons.IH [OF rest this] show ?thesis using True by simp
  next
    case False
    from processEvent_other_scores [OF False step Cons.prems(2)] obtain sta1 where
      a: "processEvent now sta e = Inr sta1" and b: "scores sta1 = scores st1" by blast
    from Cons.IH [OF rest b] show ?thesis using False a by simp
  qed
qed

lemma filter_insortBy_stable:
  assumes "\<forall>y \<in> set ys. P x \<and> P y \<longrightarrow> \<not> positive (cmp x y)"
  shows "filter P (insortBy cmp x ys) = filter P (x # ys)"
  using assms by (induction ys) auto

lemma filter_sortBy_stable:
  assumes "\<forall>x \<in> set xs. \<forall>y \<in> set xs. P x \<and> P y \<longrightarrow> \<not> positive (cmp x y)"
  shows "filter P (sortBy cmp xs) = filter P xs"
  using assms
proof (induction xs)
  case Nil
  then show ?case by (simp add: sortBy_def)
next
  case (Cons x xs)
  have s: "sortBy cmp (x # xs) = insortBy cmp x (sortBy cmp xs)" by (simp add: sortBy_def)
  have "filter P (insortBy cmp x (sortBy cmp xs)) = filter P (x # sortBy cmp xs)"
    using Cons.prems by (intro filter_insortBy_stable) (simp add: set_sortBy)
  moreover have "filter P (sortBy cmp xs) = filter P xs"
    using Cons.prems by (intro Cons.IH) simp
  ultimately show ?case by (simp add: s)
qed

lemma filter_objectEntries_nonindex:
  assumes "\<forall>p \<in> set props. P p \<longrightarrow> \<not> isArrayIndex (fst p)"
  shows "filter P (objectEntries props) = filter P props"
proof -
  have "filter P (sort_key (\<lambda>p. natOfDigits (fst p)) (filter (\<lambda>p. isArrayIndex (fst p)) props)) = []"
    using assms by (auto simp: filter_empty_conv)
  moreover have "filter P (filter (\<lambda>p. \<not> isArrayIndex (fst p)) props) = filter P props"
    using assms by (auto intro: filter_cong)
  ultimately show ?thesis by (simp add: objectEntries_def)
qed

lemma filter_take_all:
  assumes "distinct xs" and "\<forall>x \<in> set xs. P x \<longrightarrow> x \<in> set (take n xs)"
  shows "filter P (take n xs) = filter P xs"
proof -
  have "distinct (take n xs @ drop n xs)" using assms(1) by simp
  then have disj: "set (take n xs) \<inter> set (drop n xs) = {}" by (simp only: distinct_append)
  have "filter P (drop n xs) = []"
  proof (rule ccontr)
    assume "filter P (drop n xs) \<noteq> []"
    then obtain x where x: "x \<in> set (drop n xs)" "P x"
      by (auto simp: filter_empty_conv)
    then have "x \<in> set xs" by (meson in_set_dropD)
    then have "x \<in> set (take n xs)" using assms(2) x(2) by blast
    then show False using x(1) disj by blast
  qed
  moreover have "filter P xs = filter P (take n xs) @ filter P (drop n xs)"
    by (metis append_take_drop_id filter_append)
  ultimately show ?thesis by simp
qed

lemma slice0_take: "\<exists>n. slice0 k xs = take n xs"
  by (auto simp: slice0_def Let_def)

lemma keys_unique:
  assumes "distinct (map fst xs)" and "(a, c) \<in> set xs" and "(a, c') \<in> set xs"
  shows "c = c'"
  using assms by (meson eq_key_imp_eq_value)

lemma tie_order:
  assumes d: "distinct (map fst (scores st))"
    and a: "(a, CNum (Num v)) \<in> set (ranked st k)"
    and b: "(b, CNum (Num v)) \<in> set (ranked st k)"
    and na: "\<not> isArrayIndex a" and nb: "\<not> isArrayIndex b"
  shows "filter (\<lambda>p. fst p = a \<or> fst p = b) (ranked st k)
       = filter (\<lambda>p. fst p = a \<or> fst p = b) (scores st)"
proof -
  let ?P = "\<lambda>p::string \<times> cell. fst p = a \<or> fst p = b"
  let ?Q = "\<lambda>p::string \<times> cell. \<not> purchasedHas (purchased st) (fst p)"
  let ?np = "nonPurchased st"
  let ?sorted = "sortBy compareScores ?np"
  obtain n where n: "ranked st k = take n ?sorted"
    using slice0_take [of k ?sorted] by (auto simp: ranked_def)
  have dn: "distinct (map fst ?np)" using d by (rule distinct_keys_nonPurchased)
  have ds: "distinct (map fst ?sorted)" using dn by (rule distinct_keys_sortBy)
  have ain: "(a, CNum (Num v)) \<in> set ?np" and bin: "(b, CNum (Num v)) \<in> set ?np"
    using a b n by (auto simp: set_sortBy dest: in_set_takeD)
  have val: "\<forall>p \<in> set ?np. ?P p \<longrightarrow> snd p = CNum (Num v)"
  proof (intro ballI impI)
    fix p assume p: "p \<in> set ?np" and "?P p"
    then consider "fst p = a" | "fst p = b" by blast
    then show "snd p = CNum (Num v)"
    proof cases
      case 1
      then have "(a, snd p) \<in> set ?np" using p by (metis prod.collapse)
      then show ?thesis using keys_unique [OF dn _ ain] by blast
    next
      case 2
      then have "(b, snd p) \<in> set ?np" using p by (metis prod.collapse)
      then show ?thesis using keys_unique [OF dn _ bin] by blast
    qed
  qed
  have "\<forall>x \<in> set ?np. \<forall>y \<in> set ?np. ?P x \<and> ?P y \<longrightarrow> \<not> positive (compareScores x y)"
  proof (intro ballI impI)
    fix x y assume "x \<in> set ?np" "y \<in> set ?np" "?P x \<and> ?P y"
    then have "snd x = CNum (Num v)" "snd y = CNum (Num v)" using val by blast+
    then show "\<not> positive (compareScores x y)" by (simp add: compareScores_def)
  qed
  then have stable: "filter ?P ?sorted = filter ?P ?np"
    by (rule filter_sortBy_stable)
  have "\<forall>p \<in> set ?sorted. ?P p \<longrightarrow> p \<in> set (take n ?sorted)"
  proof (intro ballI impI)
    fix p assume "p \<in> set ?sorted" and P: "?P p"
    then have p: "p \<in> set ?np" by (simp add: set_sortBy)
    then have "snd p = CNum (Num v)" using val P by blast
    then have "p = (a, CNum (Num v)) \<or> p = (b, CNum (Num v))"
      using P by (metis prod.collapse)
    then show "p \<in> set (take n ?sorted)" using a b n by auto
  qed
  then have "filter ?P (take n ?sorted) = filter ?P ?sorted"
    using ds by (intro filter_take_all) (simp_all add: distinct_map)
  then have "filter ?P (ranked st k) = filter ?P ?np" using n stable by simp
  also have "\<dots> = filter ?Q (filter ?P (objectEntries (scores st)))"
    by (auto simp: nonPurchased_def intro: filter_cong)
  also have "filter ?P (objectEntries (scores st)) = filter ?P (scores st)"
    using na nb by (intro filter_objectEntries_nonindex) auto
  also have "filter ?Q (filter ?P (scores st)) = filter ?P (scores st)"
  proof -
    have "\<forall>p \<in> set (scores st). ?P p \<longrightarrow> ?Q p"
      using ain bin by (auto simp: nonPurchased_def)
    then show ?thesis by (auto intro: filter_cong)
  qed
  finally show ?thesis .
qed

section \<open>The extraction policy\<close>

lemmas extract_defs = extractIds_def extractFromData_def productsIds_def optGet_def
  explicitList_def subRecordIds_def embeddedId_def firstNonEmptySource_def firstPresentSource_def
  documentedEvent_def documentedData_def documentedProduct_def isStr_def

text \<open>
  C3 (as the code has it). For an event of the documented shape the identifiers are those
  of the first source that is present, in the order explicit list, product sub-records,
  embedded identifier, and the empty list when none is present; a list that is present
  wins also when it is empty. Where no present list is empty, this is the first source
  that is not empty.
\<close>

theorem extraction_first_present_source:
  assumes "documentedEvent e"
  shows "extractIds e = Inr (IdArray (firstPresentSource e))
     \<and> (explicitList e \<noteq> Some [] \<and> (explicitList e = None \<longrightarrow> subRecordIds e \<noteq> Some [])
          \<longrightarrow> extractIds e = Inr (IdArray (firstNonEmptySource e)))"
  using extractIds_documented [OF assms] policies_agree [of e] by auto

theorem extraction_first_present_source_witness:
  "documentedEvent
     (JObj [(''data'', JObj [(''products'', JArr [JObj [(''id'', JStr ''a'')]]),
                             (''id'', JStr ''p1'')])])
   \<and> extractIds
     (JObj [(''data'', JObj [(''products'', JArr [JObj [(''id'', JStr ''a'')]]),
                             (''id'', JStr ''p1'')])])
       = Inr (IdArray [Some (JStr ''a'')])"
proof -
  let ?e = "JObj [(''data'', JObj [(''products'', JArr [JObj [(''id'', JStr ''a'')]]),
                                  (''id'', JStr ''p1'')])]"
  have d: "documentedEvent ?e" by (simp add: extract_defs)
  have "firstPresentSource ?e = [Some (JStr ''a'')]" by (simp add: extract_defs)
  then show ?thesis using extraction_first_present_source [OF d] d by simp
qed

text \<open>C3 as stated fails: an explicit list that is empty does not fall through to the
  embedded identifier, although the first source that is not empty holds \<^verbatim>\<open>p1\<close>.\<close>

theorem empty_list_wins_counterexample:
  "documentedEvent (JObj [(''productIds'', JArr []), (''data'', JObj [(''id'', JStr ''p1'')])])
   \<and> firstNonEmptySource
       (JObj [(''productIds'', JArr []), (''data'', JObj [(''id'', JStr ''p1'')])])
       = [Some (JStr ''p1'')]
   \<and> extractIds (JObj [(''productIds'', JArr []), (''data'', JObj [(''id'', JStr ''p1'')])])
       = Inr (IdArray [])"
  by (simp add: extract_defs)

section \<open>Malformed events\<close>

lemmas engine_defs = listEvent_def scoreEvents_def initialState_def processEvent_def
  extractIds_def extractFromData_def productsIds_def optGet_def contribution_def lookupWeight_def
  EVENT_WEIGHTS_def DEFAULT_WEIGHT_def ageInDays_def recencyFactor_def RECENCY_HALF_LIFE_DAYS_def
  toStringV_def addScore_def objectPrototypeKeys_def ranked_def nonPurchased_def objectEntries_def
  isArrayIndex_def isDigit_def natOfDigits_def digitVal_def purchasedHas_def sortBy_def
  compareScores_def slice0_def updateOwn_def

lemma processEvent_no_ids:
  assumes "documentedEvent e" and "firstPresentSource e = []"
  shows "processEvent now st e = Inr st"
proof -
  have nn: "e \<noteq> JNull" using assms(1) by (rule documentedEvent_nonnull)
  show ?thesis
    using assms(2)
    by (simp add: processEvent_def extractIds_documented [OF assms(1)] getProp_optGet [OF nn])
qed

lemma contribution_missing_timestamp: "contribution now name None = NaN"
  by (simp add: contribution_def ageInDays_def)

lemma lookupWeight_missing_name: "lookupWeight None = WNum DEFAULT_WEIGHT"
  by (simp add: lookupWeight_def toStringV_def EVENT_WEIGHTS_def objectPrototypeKeys_def)

text \<open>
  C7 (as the code has it). On every list of events of the documented shape, with any of
  their fields missing, scoring completes with a ranking. An event without identifiers
  leaves the state as it is, a missing timestamp makes the contribution \<open>NaN\<close>, and a
  missing name is given the default weight.
\<close>

theorem scoring_total_on_documented_events:
  "(list_all documentedEvent evs \<longrightarrow> (\<exists>rs. scoreEvents now evs k = Inr rs))
   \<and> (documentedEvent e \<and> firstPresentSource e = [] \<longrightarrow> processEvent now st e = Inr st)
   \<and> contribution now name None = NaN
   \<and> lookupWeight None = WNum DEFAULT_WEIGHT"
  using scoreEvents_documented [of evs now k] processEvent_no_ids [of e now st]
    contribution_missing_timestamp [of now name] lookupWeight_missing_name
  by blast

theorem scoring_total_on_documented_events_witness:
  "list_all documentedEvent [JObj [], JObj [(''productIds'', JArr [JStr ''p1''])],
                             JObj [(''name'', JStr ''ProductDetailsView''), (''timestamp'', JNum 1000)]]
   \<and> scoreEvents 1000 [JObj [], JObj [(''productIds'', JArr [JStr ''p1''])],
                       JObj [(''name'', JStr ''ProductDetailsView''), (''timestamp'', JNum 1000)]] 3
       = Inr [(''p1'', CNum NaN)]
   \<and> firstPresentSource (JObj []) = []
   \<and> processEvent 1000 initialState (JObj []) = Inr initialState"
proof -
  let ?evs = "[JObj [], JObj [(''productIds'', JArr [JStr ''p1''])],
               JObj [(''name'', JStr ''ProductDetailsView''), (''timestamp'', JNum 1000)]]"
  have d: "list_all documentedEvent ?evs" by (simp add: extract_defs)
  then have "\<exists>rs. scoreEvents 1000 ?evs 3 = Inr rs"
    using scoring_total_on_documented_events [where evs = ?evs and now = 1000 and k = 3] by blast
  moreover have "scoreEvents 1000 ?evs 3 = Inr [(''p1'', CNum NaN)] \<or> (\<forall>rs. scoreEvents 1000 ?evs 3 \<noteq> Inr rs)"
    by (simp add: engine_defs)
  ultimately have run: "scoreEvents 1000 ?evs 3 = Inr [(''p1'', CNum NaN)]" by blast
  have e: "documentedEvent (JObj [])" "firstPresentSource (JObj []) = []"
    by (simp_all add: extract_defs)
  then have "processEvent 1000 initialState (JObj []) = Inr initialState"
    using scoring_total_on_documented_events
      [where e = "JObj []" and now = 1000 and st = initialState]
    by blast
  then show ?thesis using d run e by simp
qed

text \<open>C7 as stated fails: the engine throws \<^verbatim>\<open>TypeError\<close> on an event that is \<^verbatim>\<open>null\<close>,
  on a \<^verbatim>\<open>productIds\<close> that is a number, and on a product sub-record that is \<^verbatim>\<open>null\<close>.\<close>

theorem malformed_event_counterexample:
  "scoreEvents 1000 [JNull] 3 = Inl TypeError
   \<and> scoreEvents 1000 [JObj [(''name'', JStr ''ProductDetailsView''), (''timestamp'', JNum 1000),
                             (''productIds'', JNum 5)]] 3 = Inl TypeError
   \<and> scoreEvents 1000 [JObj [(''name'', JStr ''ProductDetailsView''), (''timestamp'', JNum 1000),
                             (''data'', JObj [(''products'', JArr [JNull])])]] 3 = Inl TypeError"
  by (simp add: engine_defs)

section \<open>Event names outside the weight table\<close>

lemma unknown_name_default_weight:
  assumes "toStringV name \<notin> fst ` set EVENT_WEIGHTS"
    and "toStringV name \<notin> set objectPrototypeKeys"
  shows "lookupWeight name = WNum DEFAULT_WEIGHT \<and> DEFAULT_WEIGHT = 1
     \<and> contribution now name ts = mulNum (Num DEFAULT_WEIGHT) (recency (ageInDays now ts))"
proof -
  have "map_of EVENT_WEIGHTS (toStringV name) = None"
    using assms(1) by (simp add: map_of_eq_None_iff)
  then have "lookupWeight name = WNum DEFAULT_WEIGHT"
    using assms(2) by (simp add: lookupWeight_def)
  then show ?thesis by (simp add: contribution_def DEFAULT_WEIGHT_def)
qed

text \<open>
  C9 claims the default weight \<open>1\<close> for every name that is not a key of the weight table.
  That holds for the names that are not properties of \<^verbatim>\<open>Object.prototype\<close> either
  (\<open>unknown_name_default_weight\<close>); for \<^verbatim>\<open>constructor\<close>, which is no key of the table,
  the lookup yields the inherited function, the contribution is \<open>NaN\<close> whatever the
  timestamp, and the identifier is ranked with the score \<open>NaN\<close>.
\<close>

theorem inherited_name_weight:
  "map_of EVENT_WEIGHTS ''constructor'' = None
   \<and> lookupWeight (Some (JStr ''constructor'')) = WObject
   \<and> contribution now (Some (JStr ''constructor'')) ts = NaN
   \<and> scoreEvents 1000 [listEvent ''constructor'' 1000 [''p1'']] 3 = Inr [(''p1'', CNum NaN)]"
  by (simp add: engine_defs)

section \<open>Request bodies\<close>

lemmas handler_defs = handler_def readEvents_def logRequest_def logDetails_def logScores_def
  requestedItemsOf_def parseInt_def isSpace_def isDigit_def natOfDigits_def digitVal_def
  toStringV_def scoreEvents_def initialState_def ranked_def nonPurchased_def objectEntries_def
  sortBy_def slice0_def validDate_def optGet_def

text \<open>
  C8 (as the code has it). A \<^verbatim>\<open>POST\<close> whose body is not JSON, or is the JSON value
  \<^verbatim>\<open>null\<close>, is answered with status 400 and the body \<^verbatim>\<open>[]\<close>, and the scoring engine is
  not called. A body that is any other value but an object (a boolean, a number, a
  string, an array) is handled as a request without events: the engine is called on the
  empty list and the answer is status 200 with an empty array.
\<close>

theorem malformed_body_rejected:
  assumes "reqMethod req = ''POST''"
  shows "(parsedBody req = None \<or> parsedBody req = Some JNull \<longrightarrow>
            handler now req =
              \<lparr>response = Some \<lparr>status = 400, contentType = Some ''application/json'',
                                content = Text ''[]''\<rparr>,
               engineCall = None\<rparr>)
       \<and> (parsedBody req = Some p \<and> p \<noteq> JNull \<and> (\<forall>kvs. p \<noteq> JObj kvs) \<longrightarrow>
            handler now req =
              \<lparr>response = Some \<lparr>status = 200, contentType = Some ''application/json'',
                                content = JsonIds []\<rparr>,
               engineCall = Some ([], requestedItemsOf (queryRequestedItems req))\<rparr>)"
proof -
  have a: "parsedBody req = None \<or> parsedBody req = Some JNull \<Longrightarrow>
            handler now req =
              \<lparr>response = Some \<lparr>status = 400, contentType = Some ''application/json'',
                                content = Text ''[]''\<rparr>,
               engineCall = None\<rparr>"
    using assms by (auto simp: handler_def readEvents_def)
  have b: "parsedBody req = Some p \<Longrightarrow> p \<noteq> JNull \<Longrightarrow> (\<forall>kvs. p \<noteq> JObj kvs) \<Longrightarrow>
            handler now req =
              \<lparr>response = Some \<lparr>status = 200, contentType = Some ''application/json'',
                                content = JsonIds []\<rparr>,
               engineCall = Some ([], requestedItemsOf (queryRequestedItems req))\<rparr>"
    using assms
    by (cases p)
       (simp_all add: handler_def readEvents_def logRequest_def logDetails_def logScores_def
          scoreEvents_def initialState_def ranked_def nonPurchased_def objectEntries_def
          sortBy_def slice0_def Let_def)
  show ?thesis using a b by blast
qed

theorem malformed_body_rejected_witness:
  "handler 1000 \<lparr>reqMethod = ''POST'', reqUrl = ''/recommend'', queryRequestedItems = None,
                  parsedBody = None\<rparr>
     = \<lparr>response = Some \<lparr>status = 400, contentType = Some ''application/json'',
                       content = Text ''[]''\<rparr>,
        engineCall = None\<rparr>
   \<and> handler 1000 \<lparr>reqMethod = ''POST'', reqUrl = ''/recommend'', queryRequestedItems = None,
                    parsedBody = Some (JStr ''abc'')\<rparr>
     = \<lparr>response = Some \<lparr>status = 200, contentType = Some ''application/json'',
                       content = JsonIds []\<rparr>,
        engineCall = Some ([], 3)\<rparr>"
proof -
  let ?r1 = "\<lparr>reqMethod = ''POST'', reqUrl = ''/recommend'', queryRequestedItems = None,
                  parsedBody = None\<rparr>"
  let ?r2 = "\<lparr>reqMethod = ''POST'', reqUrl = ''/recommend'', queryRequestedItems = None,
                    parsedBody = Some (JStr ''abc'')\<rparr>"
  have q: "requestedItemsOf None = 3"
    by (simp add: requestedItemsOf_def parseInt_def toStringV_def isSpace_def isDigit_def)
  have 1: "handler 1000 ?r1 =
      \<lparr>response = Some \<lparr>status = 400, contentType = Some ''application/json'',
                        content = Text ''[]''\<rparr>, engineCall = None\<rparr>"
    using malformed_body_rejected [where req = ?r1 and now = 1000] by simp
  have 2: "handler 1000 ?r2 =
      \<lparr>response = Some \<lparr>status = 200, contentType = Some ''application/json'',
                        content = JsonIds []\<rparr>, engineCall = Some ([], 3)\<rparr>"
    using malformed_body_rejected [where req = ?r2 and p = "JStr ''abc''" and now = 1000] q
    by simp
  show ?thesis using 1 2 by simp
qed

text \<open>C8 as stated fails: the body \<^verbatim>\<open>5\<close> is JSON and not an object, yet the answer is
  status 200 and the scoring engine is called.\<close>

theorem non_object_payload_counterexample:
  "handler 1000 \<lparr>reqMethod = ''POST'', reqUrl = ''/recommend'', queryRequestedItems = None,
                  parsedBody = Some (JNum 5)\<rparr>
     = \<lparr>response = Some \<lparr>status = 200, contentType = Some ''application/json'',
                       content = JsonIds []\<rparr>,
        engineCall = Some ([], 3)\<rparr>"
  by (simp add: handler_defs)

section \<open>The length of the ranking\<close>

lemma scoreEvents_ranked:
  assumes "scoreEvents now evs k = Inr rs"
  obtains st where "scoreLoop now initialState evs = Inr st" and "rs = ranked st k"
  using assms by (auto simp: scoreEvents_def split: sum.splits)

lemma ranked_all:
  assumes "int (length (nonPurchased st)) \<le> k"
  shows "ranked st k = sortBy compareScores (nonPurchased st)"
  using assms by (simp add: ranked_def slice0_def Let_def length_sortBy)

lemma ranked_zero: "ranked st 0 = []"
  by (simp add: ranked_def slice0_def)

lemma isPurchase_listEvent: "isPurchase (listEvent n t ids) = (n = ''Purchase'')"
  by (simp add: isPurchase_def listEvent_def)

lemma extractIds_listEvent:
  "extractIds (listEvent n t ids) = Inr (IdArray (map (\<lambda>i. Some (JStr i)) ids))"
  by (simp add: extractIds_def listEvent_def comp_def)

lemma eventKeys_listEvent: "eventKeys (listEvent n t ids) = ids"
  by (simp add: eventKeys_def extractIds_listEvent comp_def toStringV_def)

lemma eventPurchases_listEvent:
  "eventPurchases (listEvent n t ids) = map (\<lambda>i. Some (JStr i)) ids"
  by (simp add: eventPurchases_def extractIds_listEvent)

lemma scoredKeys_Nil: "scoredKeys [] = {}"
  by (simp add: scoredKeys_def contributionKeys_def)

lemma purchasedValues_Nil: "purchasedValues [] = {}"
  by (simp add: purchasedValues_def)

lemmas spec_sets = scoredNotPurchased_def scoredKeys_Cons scoredKeys_Nil purchasedValues_Cons
  purchasedValues_Nil isPurchase_listEvent eventKeys_listEvent eventPurchases_listEvent

lemma set_ranked: "set (ranked st k) \<subseteq> set (scores st)"
  using set_slice0 [of k "sortBy compareScores (nonPurchased st)"]
  by (auto simp: ranked_def set_sortBy nonPurchased_def set_objectEntries)

lemma listEvent_documented: "documentedEvent (listEvent n t ids)"
  by (simp add: documentedEvent_def listEvent_def optGet_def list_all_iff isStr_def)

text \<open>
  C1 (as the code has it). For every list of events on which scoring returns, every limit
  that is not negative, and no contribution under the key \<^verbatim>\<open>__proto__\<close>, the ranking
  has exactly \<open>min(limit, n)\<close> entries, \<open>n\<close> the number of distinct identifiers that
  received a contribution and were not purchased, whatever the score they add up to.
\<close>

theorem ranking_length:
  assumes "scoreEvents now evs k = Inr rs" and "0 \<le> k" and "''__proto__'' \<notin> scoredKeys evs"
  shows "length rs = min (nat k) (card (scoredNotPurchased evs))"
proof -
  from assms(1) obtain st where loop: "scoreLoop now initialState evs = Inr st"
    and rs: "rs = ranked st k" by (rule scoreEvents_ranked)
  have d: "distinct (map fst (scores st))"
    using scoreLoop_effect [OF loop goodScores_initial] by (simp add: goodScores_def)
  have "scoredNotPurchased evs - {''__proto__''} = scoredNotPurchased evs"
    using assms(3) by (auto simp: scoredNotPurchased_def)
  then have avail: "{i \<in> fst ` set (scores st). \<not> purchasedHas (purchased st) i} = scoredNotPurchased evs"
    using final_available [OF loop] by simp
  show ?thesis
    using assms(2) avail
    by (simp add: rs ranked_def length_slice0 length_sortBy length_nonPurchased [OF d])
qed

theorem ranking_length_witness:
  "scoreEvents 1000 [listEvent ''ProductAddToCart'' 1000 [''p1''],
                     listEvent ''ProductDetailsView'' 1000 [''p2'', ''p3''],
                     listEvent ''Purchase'' 1000 [''p3'']] 1
     = Inr [(''p1'', CNum (Num 10))]
   \<and> scoredNotPurchased [listEvent ''ProductAddToCart'' 1000 [''p1''],
                         listEvent ''ProductDetailsView'' 1000 [''p2'', ''p3''],
                         listEvent ''Purchase'' 1000 [''p3'']] = {''p1'', ''p2''}
   \<and> length [(''p1'', CNum (Num 10))]
       = min (nat 1) (card (scoredNotPurchased
                              [listEvent ''ProductAddToCart'' 1000 [''p1''],
                               listEvent ''ProductDetailsView'' 1000 [''p2'', ''p3''],
                               listEvent ''Purchase'' 1000 [''p3'']]))"
proof -
  let ?evs = "[listEvent ''ProductAddToCart'' 1000 [''p1''],
               listEvent ''ProductDetailsView'' 1000 [''p2'', ''p3''],
               listEvent ''Purchase'' 1000 [''p3'']]"
  have run: "scoreEvents 1000 ?evs 1 = Inr [(''p1'', CNum (Num 10))]"
    by (simp add: engine_defs)
  have keys: "scoredKeys ?evs = {''p1'', ''p2'', ''p3''}"
    by (auto simp: spec_sets)
  have snp: "scoredNotPurchased ?evs = {''p1'', ''p2''}"
    by (auto simp: spec_sets)
  have np: "''__proto__'' \<notin> scoredKeys ?evs" by (simp add: keys)
  have le: "(0::int) \<le> 1" by simp
  have len: "length [(''p1'', CNum (Num 10))] = min (nat 1) (card (scoredNotPurchased ?evs))"
    using ranking_length [OF run le np] by blast
  show ?thesis using run snp len by simp
qed

text \<open>C1 as stated fails: the identifier \<^verbatim>\<open>__proto__\<close> receives a contribution and is
  not purchased, yet the ranking is empty; for the limit \<open>-1\<close> the ranking of two
  identifiers has one entry; and an identifier whose only contribution is \<open>0\<close>, from an
  event so old that its recency factor has underflowed, is ranked all the same, so that
  the ranking has one entry where no identifier has a non-zero score.\<close>

theorem ranking_length_counterexample:
  "scoreEvents 1000 [listEvent ''ProductDetailsView'' 1000 [''__proto__'']] 3 = Inr []
   \<and> int (length ([] :: (string \<times> cell) list))
       \<noteq> min 3 (int (card (scoredNotPurchased
                               [listEvent ''ProductDetailsView'' 1000 [''__proto__'']])))
   \<and> scoreEvents 1000 [listEvent ''ProductDetailsView'' 1000 [''p1''],
                       listEvent ''ProductDetailsView'' 1000 [''p2'']] (- 1)
       = Inr [(''p1'', CNum (Num 5))]
   \<and> int (length [(''p1'', CNum (Num 5))])
       \<noteq> min (- 1) (int (card (scoredNotPurchased
                                  [listEvent ''ProductDetailsView'' 1000 [''p1''],
                                   listEvent ''ProductDetailsView'' 1000 [''p2'']])))
   \<and> scoreEvents 1700000000 [listEvent ''ProductAddToCart'' 0 [''p1'']] 3
       = Inr [(''p1'', CNum (Num 0))]
   \<and> length [(''p1'', CNum (Num 0))]
       \<noteq> min 3 (length (filter (\<lambda>p. snd p \<noteq> CNum (Num 0)) [(''p1'', CNum (Num 0))]))"
proof -
  have 1: "scoreEvents 1000 [listEvent ''ProductDetailsView'' 1000 [''__proto__'']] 3 = Inr []"
    by (simp add: engine_defs)
  have 2: "scoredNotPurchased [listEvent ''ProductDetailsView'' 1000 [''__proto__'']]
        = {''__proto__''}"
    by (auto simp: spec_sets)
  have 3: "scoreEvents 1000 [listEvent ''ProductDetailsView'' 1000 [''p1''],
                       listEvent ''ProductDetailsView'' 1000 [''p2'']] (- 1)
       = Inr [(''p1'', CNum (Num 5))]"
    by (simp add: engine_defs)
  have 4: "scoredNotPurchased [listEvent ''ProductDetailsView'' 1000 [''p1''],
                         listEvent ''ProductDetailsView'' 1000 [''p2'']] = {''p1'', ''p2''}"
    by (auto simp: spec_sets)
  have 5: "scoreEvents 1700000000 [listEvent ''ProductAddToCart'' 0 [''p1'']] 3
       = Inr [(''p1'', CNum (Num 0))]"
    by (simp add: engine_defs)
  show ?thesis using 1 3 5 by (simp add: 2 4)
qed

section \<open>The limit\<close>

text \<open>
  C6 (as the code has it). When scoring returns, the limit \<open>0\<close> gives the empty sequence,
  and a limit of at least the number of distinct identifiers that received a contribution
  and were not purchased gives all of them (no contribution under the key
  \<^verbatim>\<open>__proto__\<close> assumed).
\<close>

theorem limit_zero_and_large:
  assumes "scoreEvents now evs k = Inr rs"
  shows "(k = 0 \<longrightarrow> rs = [])
     \<and> (''__proto__'' \<notin> scoredKeys evs \<and> int (card (scoredNotPurchased evs)) \<le> k \<longrightarrow>
          fst ` set rs = scoredNotPurchased evs \<and> length rs = card (scoredNotPurchased evs))"
proof -
  from assms obtain st where loop: "scoreLoop now initialState evs = Inr st"
    and rs: "rs = ranked st k" by (rule scoreEvents_ranked)
  have d: "distinct (map fst (scores st))"
    using scoreLoop_effect [OF loop goodScores_initial] by (simp add: goodScores_def)
  have zero: "k = 0 \<longrightarrow> rs = []" using rs by (simp add: ranked_zero)
  have large: "fst ` set rs = scoredNotPurchased evs \<and> length rs = card (scoredNotPurchased evs)"
    if np: "''__proto__'' \<notin> scoredKeys evs" and k: "int (card (scoredNotPurchased evs)) \<le> k"
  proof -
    have "scoredNotPurchased evs - {''__proto__''} = scoredNotPurchased evs"
      using np by (auto simp: scoredNotPurchased_def)
    then have avail: "{i \<in> fst ` set (scores st). \<not> purchasedHas (purchased st) i} = scoredNotPurchased evs"
      using final_available [OF loop] by simp
    have len: "length (nonPurchased st) = card (scoredNotPurchased evs)"
      using length_nonPurchased [OF d] avail by simp
    then have "rs = sortBy compareScores (nonPurchased st)"
      using k rs by (simp add: ranked_all)
    then show ?thesis
      using len avail by (simp add: set_sortBy length_sortBy keys_nonPurchased)
  qed
  show ?thesis using zero large by blast
qed

theorem limit_zero_and_large_witness:
  "scoreEvents 1000 [listEvent ''ProductAddToCart'' 1000 [''p1''],
                     listEvent ''ProductDetailsView'' 1000 [''p2'']] 0 = Inr []
   \<and> scoreEvents 1000 [listEvent ''ProductAddToCart'' 1000 [''p1''],
                       listEvent ''ProductDetailsView'' 1000 [''p2'']] 5
       = Inr [(''p1'', CNum (Num 10)), (''p2'', CNum (Num 5))]
   \<and> fst ` set [(''p1'', CNum (Num 10)), (''p2'', CNum (Num 5))]
       = scoredNotPurchased [listEvent ''ProductAddToCart'' 1000 [''p1''],
                             listEvent ''ProductDetailsView'' 1000 [''p2'']]"
proof -
  let ?evs = "[listEvent ''ProductAddToCart'' 1000 [''p1''],
               listEvent ''ProductDetailsView'' 1000 [''p2'']]"
  have zero: "scoreEvents 1000 ?evs 0 = Inr []" by (simp add: engine_defs)
  have five: "scoreEvents 1000 ?evs 5 = Inr [(''p1'', CNum (Num 10)), (''p2'', CNum (Num 5))]"
    by (simp add: engine_defs)
  have keys: "scoredKeys ?evs = {''p1'', ''p2''}"
    by (auto simp: spec_sets)
  have snp: "scoredNotPurchased ?evs = {''p1'', ''p2''}"
    by (auto simp: spec_sets)
  have "''__proto__'' \<notin> scoredKeys ?evs" by (simp add: keys)
  moreover have "int (card (scoredNotPurchased ?evs)) \<le> 5" by (simp add: snp)
  ultimately have "fst ` set [(''p1'', CNum (Num 10)), (''p2'', CNum (Num 5))] = scoredNotPurchased ?evs"
    using limit_zero_and_large [OF five] by blast
  then show ?thesis using zero five by simp
qed

text \<open>C6 as stated fails: the limit \<open>-1\<close> is not positive, and the sequence returned is
  not empty, since \<^verbatim>\<open>slice(0, -1)\<close> drops the last entry only.\<close>

theorem negative_limit_counterexample:
  "(- 1 :: int) \<le> 0
   \<and> scoreEvents 1000 [listEvent ''ProductAddToCart'' 1000 [''p1''],
                       listEvent ''ProductDetailsView'' 1000 [''p2'']] (- 1)
       = Inr [(''p1'', CNum (Num 10))]"
  by (simp add: engine_defs)

section \<open>Purchases\<close>

text \<open>
  C2. When scoring returns a ranking and some event named \<^verbatim>\<open>Purchase\<close> yields the
  identifier \<open>X\<close>, then \<open>X\<close> is absent from the ranking, whatever the other events
  contribute to it. A \<^verbatim>\<open>Purchase\<close> event leaves \<^verbatim>\<open>scores\<close> as it is, and the scores at
  the end of the loop are those of the loop over the events that are not purchases.
\<close>

theorem purchase_excludes_identifier:
  "(scoreEvents now evs k = Inr rs \<and> e \<in> set evs \<and> isPurchase e
      \<and> extractIds e = Inr (IdArray xs) \<and> Some (JStr X) \<in> set xs
     \<longrightarrow> X \<notin> fst ` set rs)
   \<and> (isPurchase e \<and> processEvent now st e = Inr st' \<longrightarrow> scores st' = scores st)
   \<and> (scoreLoop now st evs = Inr st2 \<longrightarrow>
        (\<exists>st3. scoreLoop now st (filter (\<lambda>e. \<not> isPurchase e) evs) = Inr st3
              \<and> scores st3 = scores st2))"
proof -
  have a: "scoreEvents now evs k = Inr rs \<and> e \<in> set evs \<and> isPurchase e
      \<and> extractIds e = Inr (IdArray xs) \<and> Some (JStr X) \<in> set xs
     \<longrightarrow> X \<notin> fst ` set rs"
    using purchase_excluded by blast
  have b: "isPurchase e \<and> processEvent now st e = Inr st' \<longrightarrow> scores st' = scores st"
    using processEvent_purchase by blast
  have c: "scoreLoop now st evs = Inr st2 \<longrightarrow>
        (\<exists>st3. scoreLoop now st (filter (\<lambda>e. \<not> isPurchase e) evs) = Inr st3
              \<and> scores st3 = scores st2)"
    using scoreLoop_without_purchases [of now st evs st2 st] by blast
  show ?thesis using a b c by blast
qed

theorem purchase_excludes_identifier_witness:
  "scoreEvents 1000 [listEvent ''Purchase'' 1000 [''p1''],
                     listEvent ''ProductAddToCart'' 1000 [''p1''],
                     listEvent ''ProductDetailsView'' 1000 [''p2'']] 3
     = Inr [(''p2'', CNum (Num 5))]
   \<and> isPurchase (listEvent ''Purchase'' 1000 [''p1''])
   \<and> extractIds (listEvent ''Purchase'' 1000 [''p1'']) = Inr (IdArray [Some (JStr ''p1'')])
   \<and> ''p1'' \<notin> fst ` set [(''p2'', CNum (Num 5))]
   \<and> processEvent 1000 \<lparr>scores = [(''p1'', CNum (Num 10))], purchased = []\<rparr>
        (listEvent ''Purchase'' 1000 [''p1''])
       = Inr \<lparr>scores = [(''p1'', CNum (Num 10))], purchased = [Some (JStr ''p1'')]\<rparr>"
proof -
  let ?e = "listEvent ''Purchase'' 1000 [''p1'']"
  let ?evs = "[?e, listEvent ''ProductAddToCart'' 1000 [''p1''],
               listEvent ''ProductDetailsView'' 1000 [''p2'']]"
  let ?st = "\<lparr>scores = [(''p1'', CNum (Num 10))], purchased = []\<rparr>"
  have run: "scoreEvents 1000 ?evs 3 = Inr [(''p2'', CNum (Num 5))]"
    by (simp add: engine_defs)
  have p: "isPurchase ?e" by (simp add: isPurchase_listEvent)
  have x: "extractIds ?e = Inr (IdArray [Some (JStr ''p1'')])" by (simp add: extractIds_listEvent)
  have out: "''p1'' \<notin> fst ` set [(''p2'', CNum (Num 5))]"
    using purchase_excludes_identifier [of 1000 ?evs 3 "[(''p2'', CNum (Num 5))]" ?e
        "[Some (JStr ''p1'')]" "''p1''"] run p x
    by simp
  obtain st' where step: "processEvent 1000 ?st ?e = Inr st'"
    using processEvent_documented [OF listEvent_documented] by blast
  then have "scores st' = scores ?st"
    using purchase_excludes_identifier [of 1000 ?evs 3 "[(''p2'', CNum (Num 5))]" ?e
        "[Some (JStr ''p1'')]" "''p1''" ?st st'] p
    by blast
  moreover have "purchased st' = [Some (JStr ''p1'')]"
    using processEvent_purchase [OF p step] by (simp add: eventPurchases_listEvent)
  ultimately have "st' = \<lparr>scores = [(''p1'', CNum (Num 10))], purchased = [Some (JStr ''p1'')]\<rparr>"
    by simp
  then show ?thesis using run p x out step by simp
qed

section \<open>The order of ties\<close>

lemma firstSeen_append: "firstSeen acc (xs @ ys) = firstSeen (firstSeen acc xs) ys"
  by (induction xs arbitrary: acc) simp_all

lemma addScore_key_order:
  "map fst (addScore c props k) =
     (if k \<in> fst ` set props \<or> k = ''__proto__'' then map fst props else map fst props @ [k])"
proof (cases "map_of props k")
  case None
  then have "k \<notin> fst ` set props" by (simp add: map_of_eq_None_iff)
  then show ?thesis using None by (simp add: addScore_new)
next
  case (Some old)
  then have "(k, old) \<in> set props" by (rule map_of_SomeD)
  then have "k \<in> fst ` set props" by force
  then show ?thesis using Some by (simp add: addScore_own map_fst_updateOwn)
qed

lemma foldl_addScore_key_order:
  assumes "map fst props = filter (\<lambda>i. i \<noteq> ''__proto__'') acc"
  shows "map fst (foldl (addScore c) props ks) = filter (\<lambda>i. i \<noteq> ''__proto__'') (firstSeen acc ks)"
  using assms
proof (induction ks arbitrary: props acc)
  case Nil
  then show ?case by simp
next
  case (Cons k ks)
  let ?acc' = "if k \<in> set acc then acc else acc @ [k]"
  have keys: "fst ` set props = {i \<in> set acc. i \<noteq> ''__proto__''}"
    using Cons.prems by (metis set_filter set_map)
  have "map fst (addScore c props k) = filter (\<lambda>i. i \<noteq> ''__proto__'') ?acc'"
    using Cons.prems keys by (auto simp: addScore_key_order)
  from Cons.IH [OF this] show ?case by simp
qed

lemma scoreLoop_key_order:
  assumes "scoreLoop now st evs = Inr st'"
    and "map fst (scores st) = filter (\<lambda>i. i \<noteq> ''__proto__'') acc"
  shows "map fst (scores st') = filter (\<lambda>i. i \<noteq> ''__proto__'') (firstSeen acc (contributionKeys evs))"
  using assms
proof (induction evs arbitrary: st acc)
  case Nil
  then show ?case by (simp add: contributionKeys_def)
next
  case (Cons e evs)
  from Cons.prems(1) obtain st1 where step: "processEvent now st e = Inr st1"
    and rest: "scoreLoop now st1 evs = Inr st'"
    by (auto split: sum.splits)
  show ?case
  proof (cases "isPurchase e")
    case True
    then have "scores st1 = scores st" using processEvent_purchase [OF True step] by simp
    then have "map fst (scores st1) = filter (\<lambda>i. i \<noteq> ''__proto__'') acc"
      using Cons.prems(2) by simp
    from Cons.IH [OF rest this] show ?thesis using True by (simp add: contributionKeys_def)
  next
    case False
    from processEvent_other [OF False step] obtain c where
      s: "scores st1 = foldl (addScore c) (scores st) (eventKeys e)" by blast
    have "map fst (scores st1) = filter (\<lambda>i. i \<noteq> ''__proto__'') (firstSeen acc (eventKeys e))"
      unfolding s using Cons.prems(2) by (rule foldl_addScore_key_order)
    from Cons.IH [OF rest this] show ?thesis
      using False by (simp add: contributionKeys_def firstSeen_append)
  qed
qed

lemma final_key_order:
  assumes "scoreLoop now initialState evs = Inr st"
  shows "map fst (scores st) = filter (\<lambda>i. i \<noteq> ''__proto__'') (firstSeenOrder evs)"
  using scoreLoop_key_order [OF assms, of "[]"] by (simp add: initialState_def firstSeenOrder_def)

text \<open>
  C5 (as the code has it). When all accumulated scores are numbers and two identifiers
  that are not array indices are ranked with the same score, they stand in the ranking in
  the order in which they were first inserted into \<^verbatim>\<open>scores\<close>, the order of their first
  contribution.
\<close>

theorem tie_order_first_seen:
  assumes "scoreLoop now initialState evs = Inr st"
    and "scoreEvents now evs k = Inr rs"
    and "\<forall>p \<in> set (scores st). \<exists>r. snd p = CNum (Num r)"
    and "(a, CNum (Num v)) \<in> set rs" and "(b, CNum (Num v)) \<in> set rs"
    and "\<not> isArrayIndex a" and "\<not> isArrayIndex b"
  shows "filter (\<lambda>i. i = a \<or> i = b) (map fst rs) = filter (\<lambda>i. i = a \<or> i = b) (firstSeenOrder evs)"
proof -
  have rs: "rs = ranked st k"
    using assms(1,2) by (simp add: scoreEvents_def)
  have g: "goodScores (scores st)"
    using scoreLoop_effect [OF assms(1) goodScores_initial] by simp
  then have d: "distinct (map fst (scores st))" by (simp add: goodScores_def)
  have "(a, CNum (Num v)) \<in> set (scores st)" "(b, CNum (Num v)) \<in> set (scores st)"
    using assms(4,5) set_ranked [of st k] rs by auto
  then have np: "a \<noteq> ''__proto__''" "b \<noteq> ''__proto__''"
    using g by (force simp: goodScores_def)+
  have "filter (\<lambda>p. fst p = a \<or> fst p = b) rs = filter (\<lambda>p. fst p = a \<or> fst p = b) (scores st)"
    using tie_order [OF d _ _ assms(6,7), of v k] assms(4,5) unfolding rs by simp
  then have "map fst (filter (\<lambda>p. fst p = a \<or> fst p = b) rs)
      = map fst (filter (\<lambda>p. fst p = a \<or> fst p = b) (scores st))" by simp
  then have "filter (\<lambda>i. i = a \<or> i = b) (map fst rs) = filter (\<lambda>i. i = a \<or> i = b) (map fst (scores st))"
    by (simp add: filter_map comp_def)
  also have "\<dots> = filter (\<lambda>i. i = a \<or> i = b) (firstSeenOrder evs)"
    using np by (auto simp: final_key_order [OF assms(1)] intro: filter_cong)
  finally show ?thesis .
qed

theorem tie_order_first_seen_witness:
  "scoreLoop 1000 initialState [listEvent ''ProductDetailsView'' 1000 [''b'', ''10''],
                                listEvent ''ProductDetailsView'' 1000 [''a'', ''b'']]
     = Inr \<lparr>scores = [(''b'', CNum (Num 10)), (''10'', CNum (Num 5)), (''a'', CNum (Num 5))],
            purchased = []\<rparr>
   \<and> scoreEvents 1000 [listEvent ''ProductDetailsView'' 1000 [''b'', ''10''],
                       listEvent ''ProductDetailsView'' 1000 [''a'', ''b'']] 3
     = Inr [(''b'', CNum (Num 10)), (''10'', CNum (Num 5)), (''a'', CNum (Num 5))]
   \<and> firstSeenOrder [listEvent ''ProductDetailsView'' 1000 [''b'', ''10''],
                     listEvent ''ProductDetailsView'' 1000 [''a'', ''b'']]
     = [''b'', ''10'', ''a'']
   \<and> scoreEvents 1000 [listEvent ''ProductDetailsView'' 1000 [''y''],
                       listEvent ''ProductAddToCart'' 1000 [''z''],
                       listEvent ''ProductDetailsView'' 1000 [''x'']] 3
     = Inr [(''z'', CNum (Num 10)), (''y'', CNum (Num 5)), (''x'', CNum (Num 5))]
   \<and> filter (\<lambda>i. i = ''y'' \<or> i = ''x'') [''z'', ''y'', ''x'']
     = filter (\<lambda>i. i = ''y'' \<or> i = ''x'')
         (firstSeenOrder [listEvent ''ProductDetailsView'' 1000 [''y''],
                          listEvent ''ProductAddToCart'' 1000 [''z''],
                          listEvent ''ProductDetailsView'' 1000 [''x'']])"
proof -
  let ?evs1 = "[listEvent ''ProductDetailsView'' 1000 [''b'', ''10''],
                listEvent ''ProductDetailsView'' 1000 [''a'', ''b'']]"
  let ?evs = "[listEvent ''ProductDetailsView'' 1000 [''y''],
               listEvent ''ProductAddToCart'' 1000 [''z''],
               listEvent ''ProductDetailsView'' 1000 [''x'']]"
  let ?st = "\<lparr>scores = [(''y'', CNum (Num 5)), (''z'', CNum (Num 10)), (''x'', CNum (Num 5))],
             purchased = []\<rparr>"
  let ?rs = "[(''z'', CNum (Num 10)), (''y'', CNum (Num 5)), (''x'', CNum (Num 5))]"
  have loop1: "scoreLoop 1000 initialState ?evs1
      = Inr \<lparr>scores = [(''b'', CNum (Num 10)), (''10'', CNum (Num 5)), (''a'', CNum (Num 5))],
             purchased = []\<rparr>"
    by (simp add: engine_defs)
  have run1: "scoreEvents 1000 ?evs1 3
      = Inr [(''b'', CNum (Num 10)), (''10'', CNum (Num 5)), (''a'', CNum (Num 5))]"
    by (simp add: engine_defs)
  have order1: "firstSeenOrder ?evs1 = [''b'', ''10'', ''a'']"
    by (simp add: firstSeenOrder_def contributionKeys_def isPurchase_listEvent
                  eventKeys_listEvent)
  have loop: "scoreLoop 1000 initialState ?evs = Inr ?st"
    by (simp add: engine_defs)
  have run: "scoreEvents 1000 ?evs 3 = Inr ?rs"
    by (simp add: engine_defs)
  have nums: "\<forall>p \<in> set (scores ?st). \<exists>r. snd p = CNum (Num r)" by simp
  have na: "\<not> isArrayIndex ''y''" "\<not> isArrayIndex ''x''"
    by (simp_all add: isArrayIndex_def isDigit_def)
  have "filter (\<lambda>i. i = ''y'' \<or> i = ''x'') (map fst ?rs)
      = filter (\<lambda>i. i = ''y'' \<or> i = ''x'') (firstSeenOrder ?evs)"
    using tie_order_first_seen [OF loop run nums _ _ na, of 5] by simp
  then show ?thesis using loop1 run1 order1 run by simp
qed

text \<open>C5 as stated fails: \<^verbatim>\<open>2\<close> is inserted before \<^verbatim>\<open>1\<close>, both end with the score
  \<open>5\<close>, and the ranking lists \<^verbatim>\<open>1\<close> first, since \<^verbatim>\<open>Object.entries\<close> enumerates array
  indices in ascending order.\<close>

theorem tie_order_counterexample:
  "firstSeenOrder [listEvent ''ProductDetailsView'' 1000 [''2''],
                   listEvent ''ProductDetailsView'' 1000 [''1'']] = [''2'', ''1'']
   \<and> scoreLoop 1000 initialState [listEvent ''ProductDetailsView'' 1000 [''2''],
                                  listEvent ''ProductDetailsView'' 1000 [''1'']]
     = Inr \<lparr>scores = [(''2'', CNum (Num 5)), (''1'', CNum (Num 5))], purchased = []\<rparr>
   \<and> scoreEvents 1000 [listEvent ''ProductDetailsView'' 1000 [''2''],
                       listEvent ''ProductDetailsView'' 1000 [''1'']] 3
     = Inr [(''1'', CNum (Num 5)), (''2'', CNum (Num 5))]"
proof -
  have "firstSeenOrder [listEvent ''ProductDetailsView'' 1000 [''2''],
                        listEvent ''ProductDetailsView'' 1000 [''1'']] = [''2'', ''1'']"
    by (simp add: firstSeenOrder_def contributionKeys_def isPurchase_listEvent
                  eventKeys_listEvent)
  then show ?thesis by (simp add: engine_defs)
qed

section \<open>The scenarios of the specification\<close>

text \<open>The four scenarios that the specification lists as tests, with the clock at the
  timestamp of the fresh events.\<close>

lemma scenario_A:
  "scoreEvents 1000 [listEvent ''ProductDetailsView'' 1000 [''p1'']] 3
     = Inr [(''p1'', CNum (Num 5))]"
  by (simp add: engine_defs)

lemma scenario_B:
  "scoreEvents 1000 [listEvent ''Purchase'' 1000 [''p1''],
                     listEvent ''ProductAddToCart'' 1000 [''p1'']] 3 = Inr []"
  by (simp add: engine_defs)

lemma scenario_C:
  "scoreEvents 1000 [listEvent ''ProductAddToCart'' 1000 [''p1''],
                     listEvent ''ProductDetailsView'' 1000 [''p2'']] 1
     = Inr [(''p1'', CNum (Num 10))]"
  by (simp add: engine_defs)

lemma scenario_D:
  "scoreEvents 604800 [listEvent ''ProductAddToCart'' 604800 [''p1''],
                       listEvent ''ProductAddToCart'' 0 [''p1'']] 3
     = Inr [(''p1'', CNum (Num 15))]"
  by (simp add: engine_defs)

end
